theory Spec2Isabelle
  imports Complex_Main
begin

section \<open>Values handed to the label converter\<close>

text \<open>
  \<^verbatim>\<open>ml/utils/yolo_labels.py\<close> reads a sample that \<^verbatim>\<open>json.load\<close> produced: a dict whose
  values are \<^verbatim>\<open>None\<close>, booleans, integers, floats, strings, lists and dicts. A dict is
  kept as an association list; \<^verbatim>\<open>d.get(k)\<close> is the lookup that answers \<^verbatim>\<open>None\<close> for a
  missing key.

  Numbers: Python integers are unbounded, and a float is represented by the real number
  it denotes; NaN and the infinities are not represented. The functions are given twice.
  First with exact arithmetic on the values, where no operation on numbers fails. Then,
  with the prefix \<open>py\<close>, with integers and floats kept apart as Python has them: an
  integer that meets a float is converted, which raises \<^verbatim>\<open>OverflowError\<close> beyond the
  double range, and every float result goes through a rounding function.
\<close>

datatype json =
    JNull
  | JBool bool
  | JInt int
  | JFloat real
  | JStr string
  | JList "json list"
  | JDict "(string \<times> json) list"

datatype error = TypeError | ZeroDivisionError | OverflowError

definition dict_get :: "(string \<times> json) list \<Rightarrow> string \<Rightarrow> json" where
  "dict_get d k = (case map_of d k of None \<Rightarrow> JNull | Some v \<Rightarrow> v)"

text \<open>
  \<^verbatim>\<open>isinstance(v, (int, float))\<close> together with the number the arithmetic then sees.
  \<^verbatim>\<open>bool\<close> is a subclass of \<^verbatim>\<open>int\<close> in Python, with \<^verbatim>\<open>True == 1\<close> and \<^verbatim>\<open>False == 0\<close>.
\<close>

fun as_number :: "json \<Rightarrow> real option" where
  "as_number (JBool b) = Some (if b then 1 else 0)"
| "as_number (JInt n) = Some (of_int n)"
| "as_number (JFloat r) = Some r"
| "as_number JNull = None"
| "as_number (JStr s) = None"
| "as_number (JList xs) = None"
| "as_number (JDict d) = None"

text \<open>Lists and dicts have no hash; every other JSON value has one.\<close>

fun hashable :: "json \<Rightarrow> bool" where
  "hashable (JList xs) = False"
| "hashable (JDict d) = False"
| "hashable JNull = True"
| "hashable (JBool b) = True"
| "hashable (JInt n) = True"
| "hashable (JFloat r) = True"
| "hashable (JStr s) = True"

section \<open>Constants of the module\<close>

definition CLASS_NAME_TO_ID :: "(string \<times> int) list" where
  "CLASS_NAME_TO_ID =
     [(''tree_deciduous'', 0), (''tree_pine'', 1), (''billboard'', 2), (''stop_sign'', 3)]"

definition IGNORED_CLASSES :: "string set" where
  "IGNORED_CLASSES = {''dense_cover''}"

definition NEGATIVE_CLASS :: string where
  "NEGATIVE_CLASS = ''negative''"

record YoloBox =
  class_id :: int
  x_center :: real
  y_center :: real
  width :: real
  height :: real

section \<open>clamp and normalize\_box\<close>

definition clamp :: "real \<Rightarrow> real \<Rightarrow> real \<Rightarrow> real" where
  "clamp v min_value max_value = max min_value (min max_value v)"

definition normalize_box ::
  "real \<Rightarrow> real \<Rightarrow> real \<Rightarrow> real \<Rightarrow> int \<Rightarrow> int \<Rightarrow> (real \<times> real \<times> real \<times> real) option" where
  "normalize_box x0 y0 x1 y1 imgw imgh =
     (let cx0 = clamp x0 0 (of_int imgw);
          cx1 = clamp x1 0 (of_int imgw);
          cy0 = clamp y0 0 (of_int imgh);
          cy1 = clamp y1 0 (of_int imgh);
          box_w = cx1 - cx0;
          box_h = cy1 - cy0
      in if box_w \<le> 1 \<or> box_h \<le> 1 then None
         else Some ((cx0 + cx1) / 2, (cy0 + cy1) / 2, box_w, box_h))"

section \<open>sample\_to\_boxes\<close>

text \<open>
  The membership test \<^verbatim>\<open>class_name in IGNORED_CLASSES\<close> hashes its left operand, since
  \<^verbatim>\<open>IGNORED_CLASSES\<close> is a set: an unhashable operand raises \<^verbatim>\<open>TypeError\<close>.
\<close>

definition in_IGNORED_CLASSES :: "json \<Rightarrow> error + bool" where
  "in_IGNORED_CLASSES class_name =
     (if \<not> hashable class_name then Inl TypeError
      else Inr (case class_name of JStr s \<Rightarrow> s \<in> IGNORED_CLASSES | _ \<Rightarrow> False))"

text \<open>\<^verbatim>\<open>CLASS_NAME_TO_ID.get(class_name)\<close>: every key of the dict is a string.\<close>

definition CLASS_NAME_TO_ID_get :: "json \<Rightarrow> int option" where
  "CLASS_NAME_TO_ID_get class_name =
     (case class_name of JStr s \<Rightarrow> map_of CLASS_NAME_TO_ID s | _ \<Rightarrow> None)"

text \<open>
  The first half of the loop body: the checks on one annotation and the corners given to
  \<^verbatim>\<open>normalize_box\<close>. \<^verbatim>\<open>None\<close> stands for \<^verbatim>\<open>continue\<close>.
\<close>

definition annotation_corners :: "json \<Rightarrow> (real \<times> real \<times> real \<times> real) option" where
  "annotation_corners annotation =
     (case annotation of
        JDict a \<Rightarrow>
          (let kind = dict_get a ''kind'' in
           if kind = JStr ''circle'' then
             (case dict_get a ''centerPx'' of
                JDict center \<Rightarrow>
                  (case as_number (dict_get a ''radiusPx'') of
                     None \<Rightarrow> None
                   | Some radius \<Rightarrow>
                       (case as_number (dict_get center ''x'') of
                          None \<Rightarrow> None
                        | Some cx \<Rightarrow>
                            (case as_number (dict_get center ''y'') of
                               None \<Rightarrow> None
                             | Some cy \<Rightarrow>
                                 Some (cx - radius, cy - radius, cx + radius, cy + radius))))
              | _ \<Rightarrow> None)
           else if kind = JStr ''bbox'' then
             (case as_number (dict_get a ''x'') of
                None \<Rightarrow> None
              | Some x \<Rightarrow>
                  (case as_number (dict_get a ''y'') of
                     None \<Rightarrow> None
                   | Some y \<Rightarrow>
                       (case as_number (dict_get a ''width'') of
                          None \<Rightarrow> None
                        | Some w \<Rightarrow>
                            (case as_number (dict_get a ''height'') of
                               None \<Rightarrow> None
                             | Some h \<Rightarrow> Some (x, y, x + w, y + h)))))
           else None)
      | _ \<Rightarrow> None)"

text \<open>True division by an image dimension: a zero divisor raises.\<close>

definition truediv :: "real \<Rightarrow> int \<Rightarrow> error + real" where
  "truediv a d = (if d = 0 then Inl ZeroDivisionError else Inr (a / of_int d))"

definition make_box ::
  "int \<Rightarrow> real \<times> real \<times> real \<times> real \<Rightarrow> int \<Rightarrow> int \<Rightarrow> error + YoloBox" where
  "make_box cid raw imgw imgh =
     (case raw of (xc, yc, box_w, box_h) \<Rightarrow>
        (case truediv xc imgw of Inl e \<Rightarrow> Inl e | Inr bx \<Rightarrow>
        (case truediv yc imgh of Inl e \<Rightarrow> Inl e | Inr by \<Rightarrow>
        (case truediv box_w imgw of Inl e \<Rightarrow> Inl e | Inr bw \<Rightarrow>
        (case truediv box_h imgh of Inl e \<Rightarrow> Inl e | Inr bh \<Rightarrow>
           Inr \<lparr>class_id = cid, x_center = bx, y_center = by, width = bw, height = bh\<rparr>)))))"

text \<open>
  The variable \<^verbatim>\<open>raw\<close> of the loop body: what \<^verbatim>\<open>normalize_box\<close> answers on the
  corners of the annotation, \<^verbatim>\<open>None\<close> again standing for \<^verbatim>\<open>continue\<close>.
\<close>

definition annotation_raw :: "json \<Rightarrow> int \<Rightarrow> int \<Rightarrow> (real \<times> real \<times> real \<times> real) option" where
  "annotation_raw annotation imgw imgh =
     (case annotation_corners annotation of
        None \<Rightarrow> None
      | Some (x0, y0, x1, y1) \<Rightarrow> normalize_box x0 y0 x1 y1 imgw imgh)"

text \<open>
  The whole loop body for one annotation: \<^verbatim>\<open>Inr None\<close> is \<^verbatim>\<open>continue\<close>,
  \<^verbatim>\<open>Inr (Some b)\<close> is the box appended, \<^verbatim>\<open>Inl e\<close> an exception.
\<close>

definition annotation_to_box :: "int \<Rightarrow> int \<Rightarrow> int \<Rightarrow> json \<Rightarrow> error + YoloBox option" where
  "annotation_to_box cid imgw imgh annotation =
     (case annotation_raw annotation imgw imgh of
        None \<Rightarrow> Inr None
      | Some raw \<Rightarrow>
          (case make_box cid raw imgw imgh of
             Inl e \<Rightarrow> Inl e
           | Inr b \<Rightarrow> Inr (Some b)))"

text \<open>The \<^verbatim>\<open>for\<close> loop, with the list \<^verbatim>\<open>boxes\<close> it appends to.\<close>

fun boxes_loop :: "int \<Rightarrow> int \<Rightarrow> int \<Rightarrow> json list \<Rightarrow> YoloBox list \<Rightarrow> error + YoloBox list" where
  "boxes_loop cid imgw imgh [] boxes = Inr boxes"
| "boxes_loop cid imgw imgh (annotation # rest) boxes =
     (case annotation_to_box cid imgw imgh annotation of
        Inl e \<Rightarrow> Inl e
      | Inr None \<Rightarrow> boxes_loop cid imgw imgh rest boxes
      | Inr (Some b) \<Rightarrow> boxes_loop cid imgw imgh rest (boxes @ [b]))"

definition sample_to_boxes :: "(string \<times> json) list \<Rightarrow> int \<Rightarrow> int \<Rightarrow> error + YoloBox list" where
  "sample_to_boxes sample imgw imgh =
     (let class_name = dict_get sample ''class'' in
      case in_IGNORED_CLASSES class_name of
        Inl e \<Rightarrow> Inl e
      | Inr ignored \<Rightarrow>
          if ignored \<or> class_name = JNull then Inr []
          else if class_name = JStr NEGATIVE_CLASS then Inr []
          else
            (case CLASS_NAME_TO_ID_get class_name of
               None \<Rightarrow> Inr []
             | Some cid \<Rightarrow>
                 (case dict_get sample ''annotations'' of
                    JList annotations \<Rightarrow> boxes_loop cid imgw imgh annotations []
                  | _ \<Rightarrow> Inr [])))"

section \<open>format\_yolo\_labels\<close>

text \<open>
  \<^verbatim>\<open>str\<close> of an integer, and the \<^verbatim>\<open>.6f\<close> format of a float: the value rounded to the
  nearest multiple of \<open>10\<^sup>-\<^sup>6\<close>, a tie going to the even neighbour, written with its
  sign, its integer digits, a point and six fraction digits.
\<close>

definition digit_char :: "nat \<Rightarrow> char" where
  "digit_char d = ''0123456789'' ! (d mod 10)"

function str_nat :: "nat \<Rightarrow> string" where
  "str_nat n = (if n < 10 then [digit_char n] else str_nat (n div 10) @ [digit_char (n mod 10)])"
  by pat_completeness auto
termination
  by (relation "measure id") auto

declare str_nat.simps [simp del]

definition str_int :: "int \<Rightarrow> string" where
  "str_int i = (if i < 0 then ''-'' @ str_nat (nat (- i)) else str_nat (nat i))"

definition round_half_even :: "real \<Rightarrow> int" where
  "round_half_even r =
     (let f = \<lfloor>r\<rfloor>; d = r - of_int f
      in if d < 1 / 2 then f
         else if 1 / 2 < d then f + 1
         else if even f then f else f + 1)"

text \<open>The last \<open>k\<close> decimal digits of \<open>m\<close>, zeros included.\<close>

primrec fixed_digits :: "nat \<Rightarrow> nat \<Rightarrow> string" where
  "fixed_digits 0 m = []"
| "fixed_digits (Suc k) m = fixed_digits k (m div 10) @ [digit_char (m mod 10)]"

definition fraction_digits :: "nat \<Rightarrow> string" where
  "fraction_digits m = fixed_digits 6 m"

definition format_6f :: "real \<Rightarrow> string" where
  "format_6f r =
     (let m = nat (round_half_even (\<bar>r\<bar> * 1000000))
      in (if r < 0 then ''-'' else []) @ str_nat (m div 1000000) @ ''.''
           @ fraction_digits (m mod 1000000))"

definition format_line :: "YoloBox \<Rightarrow> string" where
  "format_line box =
     str_int (class_id box) @ '' '' @ format_6f (x_center box) @ '' '' @ format_6f (y_center box)
       @ '' '' @ format_6f (width box) @ '' '' @ format_6f (height box)"

definition format_yolo_labels :: "YoloBox list \<Rightarrow> string list" where
  "format_yolo_labels boxes = foldl (\<lambda>lines box. lines @ [format_line box]) [] boxes"

section \<open>The same functions on Python's integers and floats\<close>

datatype pynum = PInt int | PFloat real

fun num_value :: "pynum \<Rightarrow> real" where
  "num_value (PInt n) = of_int n"
| "num_value (PFloat x) = x"

text \<open>\<^verbatim>\<open>isinstance(v, (int, float))\<close> again, keeping the kind of number.\<close>

fun as_pynum :: "json \<Rightarrow> pynum option" where
  "as_pynum (JBool b) = Some (PInt (if b then 1 else 0))"
| "as_pynum (JInt n) = Some (PInt n)"
| "as_pynum (JFloat r) = Some (PFloat r)"
| "as_pynum JNull = None"
| "as_pynum (JStr s) = None"
| "as_pynum (JList xs) = None"
| "as_pynum (JDict d) = None"

text \<open>
  The largest double is \<open>2\<^sup>1\<^sup>0\<^sup>2\<^sup>4 - 2\<^sup>9\<^sup>7\<^sup>1\<close>. An integer converts to a float when it
  rounds to a double, that is when its magnitude is below \<open>2\<^sup>1\<^sup>0\<^sup>2\<^sup>4 - 2\<^sup>9\<^sup>7\<^sup>0\<close>;
  from there on the conversion raises \<^verbatim>\<open>OverflowError\<close>, and so does the true division of
  two integers whose quotient is that large.
\<close>

definition DBL_LIMIT :: real where
  "DBL_LIMIT = 2 ^ 1024 - 2 ^ 970"

text \<open>
  Rounding to the nearest double, ties to the even significand: 53 significant bits, the
  exponent not below that of the subnormal numbers. A result beyond the largest double,
  which Python turns into an infinity without raising, stays a finite number here.
\<close>

definition round_double :: "real \<Rightarrow> real" where
  "round_double x =
     (if x = 0 then 0
      else let e = max \<lfloor>log 2 \<bar>x\<bar>\<rfloor> (- 1022);
               u = 2 powr (of_int e - 52)
           in of_int (round_half_even (x / u)) * u)"

text \<open>No rounding: float arithmetic read as exact.\<close>

definition exact :: "real \<Rightarrow> real" where
  "exact x = x"

definition ebind :: "error + 'a \<Rightarrow> ('a \<Rightarrow> error + 'b) \<Rightarrow> error + 'b" where
  "ebind m f = (case m of Inl e \<Rightarrow> Inl e | Inr x \<Rightarrow> f x)"

definition int_to_float :: "(real \<Rightarrow> real) \<Rightarrow> int \<Rightarrow> error + real" where
  "int_to_float rnd n =
     (if DBL_LIMIT \<le> \<bar>of_int n\<bar> then Inl OverflowError else Inr (rnd (of_int n)))"

fun py_float :: "(real \<Rightarrow> real) \<Rightarrow> pynum \<Rightarrow> error + real" where
  "py_float rnd (PInt n) = int_to_float rnd n"
| "py_float rnd (PFloat x) = Inr x"

text \<open>
  \<^verbatim>\<open>a - b\<close> and \<^verbatim>\<open>a + b\<close>: exact on two integers, otherwise both operands as floats and
  the result rounded.
\<close>

fun py_sub :: "(real \<Rightarrow> real) \<Rightarrow> pynum \<Rightarrow> pynum \<Rightarrow> error + pynum" where
  "py_sub rnd (PInt m) (PInt n) = Inr (PInt (m - n))"
| "py_sub rnd a b =
     ebind (py_float rnd a) (\<lambda>x. ebind (py_float rnd b) (\<lambda>y. Inr (PFloat (rnd (x - y)))))"

fun py_add :: "(real \<Rightarrow> real) \<Rightarrow> pynum \<Rightarrow> pynum \<Rightarrow> error + pynum" where
  "py_add rnd (PInt m) (PInt n) = Inr (PInt (m + n))"
| "py_add rnd a b =
     ebind (py_float rnd a) (\<lambda>x. ebind (py_float rnd b) (\<lambda>y. Inr (PFloat (rnd (x + y)))))"

text \<open>
  \<^verbatim>\<open>a / n\<close> for an integer \<open>n\<close>, always a float: the correctly rounded quotient of two
  integers, or the rounded quotient of a float by the converted integer.
\<close>

fun py_truediv :: "(real \<Rightarrow> real) \<Rightarrow> pynum \<Rightarrow> int \<Rightarrow> error + real" where
  "py_truediv rnd (PInt m) n =
     (if n = 0 then Inl ZeroDivisionError
      else if DBL_LIMIT \<le> \<bar>of_int m / of_int n\<bar> then Inl OverflowError
      else Inr (rnd (of_int m / of_int n)))"
| "py_truediv rnd (PFloat x) n =
     ebind (int_to_float rnd n)
       (\<lambda>y. if n = 0 then Inl ZeroDivisionError else Inr (rnd (x / y)))"

text \<open>
  \<^verbatim>\<open>min(a, b)\<close> and \<^verbatim>\<open>max(a, b)\<close> answer one of their arguments, the first one unless
  the second is strictly smaller, respectively larger; they compare values and convert
  nothing.
\<close>

definition py_min :: "pynum \<Rightarrow> pynum \<Rightarrow> pynum" where
  "py_min a b = (if num_value b < num_value a then b else a)"

definition py_max :: "pynum \<Rightarrow> pynum \<Rightarrow> pynum" where
  "py_max a b = (if num_value a < num_value b then b else a)"

definition py_clamp :: "pynum \<Rightarrow> pynum \<Rightarrow> pynum \<Rightarrow> pynum" where
  "py_clamp v min_value max_value = py_max min_value (py_min max_value v)"

definition py_normalize_box ::
  "(real \<Rightarrow> real) \<Rightarrow> pynum \<Rightarrow> pynum \<Rightarrow> pynum \<Rightarrow> pynum \<Rightarrow> int \<Rightarrow> int
     \<Rightarrow> error + (real \<times> real \<times> pynum \<times> pynum) option" where
  "py_normalize_box rnd x0 y0 x1 y1 imgw imgh =
     (let cx0 = py_clamp x0 (PInt 0) (PInt imgw);
          cx1 = py_clamp x1 (PInt 0) (PInt imgw);
          cy0 = py_clamp y0 (PInt 0) (PInt imgh);
          cy1 = py_clamp y1 (PInt 0) (PInt imgh)
      in ebind (py_sub rnd cx1 cx0) (\<lambda>box_w.
         ebind (py_sub rnd cy1 cy0) (\<lambda>box_h.
           if num_value box_w \<le> 1 \<or> num_value box_h \<le> 1 then Inr None
           else
             ebind (py_add rnd cx0 cx1) (\<lambda>sx.
             ebind (py_truediv rnd sx 2) (\<lambda>xc.
             ebind (py_add rnd cy0 cy1) (\<lambda>sy.
             ebind (py_truediv rnd sy 2) (\<lambda>yc.
               Inr (Some (xc, yc, box_w, box_h)))))))))"

definition py_annotation_corners ::
  "(real \<Rightarrow> real) \<Rightarrow> json \<Rightarrow> error + (pynum \<times> pynum \<times> pynum \<times> pynum) option" where
  "py_annotation_corners rnd annotation =
     (case annotation of
        JDict a \<Rightarrow>
          (let kind = dict_get a ''kind'' in
           if kind = JStr ''circle'' then
             (case dict_get a ''centerPx'' of
                JDict center \<Rightarrow>
                  (case as_pynum (dict_get a ''radiusPx'') of
                     None \<Rightarrow> Inr None
                   | Some radius \<Rightarrow>
                       (case as_pynum (dict_get center ''x'') of
                          None \<Rightarrow> Inr None
                        | Some cx \<Rightarrow>
                            (case as_pynum (dict_get center ''y'') of
                               None \<Rightarrow> Inr None
                             | Some cy \<Rightarrow>
                                 ebind (py_sub rnd cx radius) (\<lambda>x0.
                                 ebind (py_sub rnd cy radius) (\<lambda>y0.
                                 ebind (py_add rnd cx radius) (\<lambda>x1.
                                 ebind (py_add rnd cy radius) (\<lambda>y1.
                                   Inr (Some (x0, y0, x1, y1)))))))))
              | _ \<Rightarrow> Inr None)
           else if kind = JStr ''bbox'' then
             (case as_pynum (dict_get a ''x'') of
                None \<Rightarrow> Inr None
              | Some x \<Rightarrow>
                  (case as_pynum (dict_get a ''y'') of
                     None \<Rightarrow> Inr None
                   | Some y \<Rightarrow>
                       (case as_pynum (dict_get a ''width'') of
                          None \<Rightarrow> Inr None
                        | Some w \<Rightarrow>
                            (case as_pynum (dict_get a ''height'') of
                               None \<Rightarrow> Inr None
                             | Some h \<Rightarrow>
                                 ebind (py_add rnd x w) (\<lambda>x1.
                                 ebind (py_add rnd y h) (\<lambda>y1.
                                   Inr (Some (x, y, x1, y1))))))))
           else Inr None)
      | _ \<Rightarrow> Inr None)"

definition py_annotation_raw ::
  "(real \<Rightarrow> real) \<Rightarrow> json \<Rightarrow> int \<Rightarrow> int \<Rightarrow> error + (real \<times> real \<times> pynum \<times> pynum) option" where
  "py_annotation_raw rnd annotation imgw imgh =
     ebind (py_annotation_corners rnd annotation) (\<lambda>corners.
       case corners of
         None \<Rightarrow> Inr None
       | Some (x0, y0, x1, y1) \<Rightarrow> py_normalize_box rnd x0 y0 x1 y1 imgw imgh)"

definition py_make_box ::
  "(real \<Rightarrow> real) \<Rightarrow> int \<Rightarrow> real \<times> real \<times> pynum \<times> pynum \<Rightarrow> int \<Rightarrow> int \<Rightarrow> error + YoloBox" where
  "py_make_box rnd cid raw imgw imgh =
     (case raw of (xc, yc, box_w, box_h) \<Rightarrow>
        ebind (py_truediv rnd (PFloat xc) imgw) (\<lambda>bx.
        ebind (py_truediv rnd (PFloat yc) imgh) (\<lambda>by.
        ebind (py_truediv rnd box_w imgw) (\<lambda>bw.
        ebind (py_truediv rnd box_h imgh) (\<lambda>bh.
          Inr \<lparr>class_id = cid, x_center = bx, y_center = by, width = bw, height = bh\<rparr>)))))"

definition py_annotation_to_box ::
  "(real \<Rightarrow> real) \<Rightarrow> int \<Rightarrow> int \<Rightarrow> int \<Rightarrow> json \<Rightarrow> error + YoloBox option" where
  "py_annotation_to_box rnd cid imgw imgh annotation =
     ebind (py_annotation_raw rnd annotation imgw imgh) (\<lambda>raw.
       case raw of
         None \<Rightarrow> Inr None
       | Some r \<Rightarrow> ebind (py_make_box rnd cid r imgw imgh) (\<lambda>b. Inr (Some b)))"

fun py_boxes_loop ::
  "(real \<Rightarrow> real) \<Rightarrow> int \<Rightarrow> int \<Rightarrow> int \<Rightarrow> json list \<Rightarrow> YoloBox list \<Rightarrow> error + YoloBox list" where
  "py_boxes_loop rnd cid imgw imgh [] boxes = Inr boxes"
| "py_boxes_loop rnd cid imgw imgh (annotation # rest) boxes =
     (case py_annotation_to_box rnd cid imgw imgh annotation of
        Inl e \<Rightarrow> Inl e
      | Inr None \<Rightarrow> py_boxes_loop rnd cid imgw imgh rest boxes
      | Inr (Some b) \<Rightarrow> py_boxes_loop rnd cid imgw imgh rest (boxes @ [b]))"

definition py_sample_to_boxes ::
  "(real \<Rightarrow> real) \<Rightarrow> (string \<times> json) list \<Rightarrow> int \<Rightarrow> int \<Rightarrow> error + YoloBox list" where
  "py_sample_to_boxes rnd sample imgw imgh =
     (let class_name = dict_get sample ''class'' in
      case in_IGNORED_CLASSES class_name of
        Inl e \<Rightarrow> Inl e
      | Inr ignored \<Rightarrow>
          if ignored \<or> class_name = JNull then Inr []
          else if class_name = JStr NEGATIVE_CLASS then Inr []
          else
            (case CLASS_NAME_TO_ID_get class_name of
               None \<Rightarrow> Inr []
             | Some cid \<Rightarrow>
                 (case dict_get sample ''annotations'' of
                    JList annotations \<Rightarrow> py_boxes_loop rnd cid imgw imgh annotations []
                  | _ \<Rightarrow> Inr [])))"

section \<open>Reference points for the statements\<close>

text \<open>
  The box the loop body builds from \<^verbatim>\<open>raw\<close> when no division fails: the class
  identifier, and the pixel centre and size divided by the image dimensions.
\<close>

definition scaled_box :: "int \<Rightarrow> int \<Rightarrow> int \<Rightarrow> real \<times> real \<times> real \<times> real \<Rightarrow> YoloBox" where
  "scaled_box cid imgw imgh raw =
     (case raw of (xc, yc, box_w, box_h) \<Rightarrow>
        \<lparr>class_id = cid, x_center = xc / of_int imgw, y_center = yc / of_int imgh,
         width = box_w / of_int imgw, height = box_h / of_int imgh\<rparr>)"

text \<open>Builders for the annotation and sample dicts of the interface, used in the examples.\<close>

definition bbox_annotation :: "json \<Rightarrow> json \<Rightarrow> json \<Rightarrow> json \<Rightarrow> json" where
  "bbox_annotation x y w h =
     JDict [(''kind'', JStr ''bbox''), (''x'', x), (''y'', y), (''width'', w), (''height'', h)]"

definition circle_annotation :: "json \<Rightarrow> json \<Rightarrow> json \<Rightarrow> json" where
  "circle_annotation cx cy r =
     JDict [(''kind'', JStr ''circle''), (''centerPx'', JDict [(''x'', cx), (''y'', cy)]), (''radiusPx'', r)]"

definition make_sample :: "json \<Rightarrow> json list \<Rightarrow> (string \<times> json) list" where
  "make_sample c anns = [(''class'', c), (''annotations'', JList anns)]"

text \<open>
  The annotations that count as malformed: not a dict; a kind that is neither
  \<^verbatim>\<open>circle\<close> nor \<^verbatim>\<open>bbox\<close>; a circle whose \<^verbatim>\<open>centerPx\<close> is not a dict or whose
  \<^verbatim>\<open>centerPx.x\<close>, \<^verbatim>\<open>centerPx.y\<close> or \<^verbatim>\<open>radiusPx\<close> is missing or not a number; a bbox
  whose \<^verbatim>\<open>x\<close>, \<^verbatim>\<open>y\<close>, \<^verbatim>\<open>width\<close> or \<^verbatim>\<open>height\<close> is missing or not a number.
\<close>

definition malformed_annotation :: "json \<Rightarrow> bool" where
  "malformed_annotation annotation =
     (case annotation of
        JDict a \<Rightarrow>
          if dict_get a ''kind'' = JStr ''circle'' then
            as_number (dict_get a ''radiusPx'') = None
            \<or> (case dict_get a ''centerPx'' of
                  JDict center \<Rightarrow>
                    as_number (dict_get center ''x'') = None \<or> as_number (dict_get center ''y'') = None
                | _ \<Rightarrow> True)
          else if dict_get a ''kind'' = JStr ''bbox'' then
            as_number (dict_get a ''x'') = None \<or> as_number (dict_get a ''y'') = None
            \<or> as_number (dict_get a ''width'') = None \<or> as_number (dict_get a ''height'') = None
          else True
      | _ \<Rightarrow> True)"

text \<open>
  An integer too large for a double next to a float, the one case where \<^verbatim>\<open>a - b\<close> and
  \<^verbatim>\<open>a + b\<close> raise; and the annotations in which the arithmetic on the corners meets that
  case: a circle with numeric fields pairs \<^verbatim>\<open>centerPx.x\<close> and \<^verbatim>\<open>centerPx.y\<close> with
  \<^verbatim>\<open>radiusPx\<close>, a bbox with numeric fields pairs \<^verbatim>\<open>x\<close> with \<^verbatim>\<open>width\<close> and \<^verbatim>\<open>y\<close> with
  \<^verbatim>\<open>height\<close>.
\<close>

definition overflow_mix :: "pynum \<Rightarrow> pynum \<Rightarrow> bool" where
  "overflow_mix a b =
     (case (a, b) of
        (PInt m, PFloat y) \<Rightarrow> DBL_LIMIT \<le> \<bar>of_int m\<bar>
      | (PFloat x, PInt n) \<Rightarrow> DBL_LIMIT \<le> \<bar>of_int n\<bar>
      | _ \<Rightarrow> False)"

definition annotation_overflows :: "json \<Rightarrow> bool" where
  "annotation_overflows annotation =
     (case annotation of
        JDict a \<Rightarrow>
          if dict_get a ''kind'' = JStr ''circle'' then
            (case dict_get a ''centerPx'' of
               JDict center \<Rightarrow>
                 (case (as_pynum (dict_get a ''radiusPx''), as_pynum (dict_get center ''x''),
                        as_pynum (dict_get center ''y'')) of
                    (Some radius, Some cx, Some cy) \<Rightarrow> overflow_mix cx radius \<or> overflow_mix cy radius
                  | _ \<Rightarrow> False)
             | _ \<Rightarrow> False)
          else if dict_get a ''kind'' = JStr ''bbox'' then
            (case (as_pynum (dict_get a ''x''), as_pynum (dict_get a ''y''),
                   as_pynum (dict_get a ''width''), as_pynum (dict_get a ''height'')) of
               (Some x, Some y, Some w, Some h) \<Rightarrow> overflow_mix x w \<or> overflow_mix y h
             | _ \<Rightarrow> False)
          else False
      | _ \<Rightarrow> False)"

text \<open>An integer between two bounds, or any float.\<close>

definition int_within :: "int \<Rightarrow> int \<Rightarrow> pynum \<Rightarrow> bool" where
  "int_within lo hi p = (case p of PInt n \<Rightarrow> lo \<le> n \<and> n \<le> hi | PFloat x \<Rightarrow> True)"

text \<open>The boxes one annotation adds to the result: one or none.\<close>

definition py_emitted :: "(real \<Rightarrow> real) \<Rightarrow> int \<Rightarrow> int \<Rightarrow> int \<Rightarrow> json \<Rightarrow> YoloBox list" where
  "py_emitted rnd cid imgw imgh annotation =
     (case py_annotation_to_box rnd cid imgw imgh annotation of
        Inr (Some b) \<Rightarrow> [b]
      | _ \<Rightarrow> [])"

text \<open>Reading a string of decimal digits back as a number.\<close>

definition digit_value :: "char \<Rightarrow> nat" where
  "digit_value c = of_char c - 48"

definition decimal_value :: "string \<Rightarrow> nat" where
  "decimal_value s = foldl (\<lambda>v c. 10 * v + digit_value c) 0 s"

text \<open>The sample of scenario B: one \<^verbatim>\<open>tree_pine\<close> bbox on a 640 by 640 image.\<close>

definition scenario_B :: "(string \<times> json) list" where
  "scenario_B = make_sample (JStr ''tree_pine'') [bbox_annotation (JInt 10) (JInt 10) (JInt 100) (JInt 50)]"

section \<open>Properties of normalize\_box\<close>

lemma clamp_cases:
  "0 \<le> m \<Longrightarrow> clamp v 0 m = (if v < 0 then 0 else if m < v then m else v)"
  by (simp add: clamp_def max_def min_def)

lemma clamp_bounds: "0 \<le> m \<Longrightarrow> 0 \<le> clamp v 0 m \<and> clamp v 0 m \<le> m"
  by (simp add: clamp_def max_def min_def)

text \<open>
  Claim C1. For positive image dimensions, \<^verbatim>\<open>normalize_box\<close> clamps \<open>x0\<close> and \<open>x1\<close> into
  \<open>[0, imgw]\<close> and \<open>y0\<close> and \<open>y1\<close> into \<open>[0, imgh]\<close>, each on its own; it answers
  \<^verbatim>\<open>None\<close> exactly when the clamped width or the clamped height is at most 1, which
  covers corners given in reverse order and boxes clamped onto one edge; otherwise it
  answers the centre and the size of the clamped box, in pixels.
\<close>

theorem normalize_box_contract:
  fixes imgw imgh :: int and x0 y0 x1 y1 cx0 cy0 cx1 cy1 :: real
  assumes "0 < imgw" and "0 < imgh"
    and "cx0 = (if x0 < 0 then 0 else if of_int imgw < x0 then of_int imgw else x0)"
    and "cx1 = (if x1 < 0 then 0 else if of_int imgw < x1 then of_int imgw else x1)"
    and "cy0 = (if y0 < 0 then 0 else if of_int imgh < y0 then of_int imgh else y0)"
    and "cy1 = (if y1 < 0 then 0 else if of_int imgh < y1 then of_int imgh else y1)"
  shows "cx0 = clamp x0 0 (of_int imgw) \<and> cx1 = clamp x1 0 (of_int imgw)
       \<and> cy0 = clamp y0 0 (of_int imgh) \<and> cy1 = clamp y1 0 (of_int imgh)
       \<and> 0 \<le> cx0 \<and> cx0 \<le> of_int imgw \<and> 0 \<le> cx1 \<and> cx1 \<le> of_int imgw
       \<and> 0 \<le> cy0 \<and> cy0 \<le> of_int imgh \<and> 0 \<le> cy1 \<and> cy1 \<le> of_int imgh
       \<and> (normalize_box x0 y0 x1 y1 imgw imgh = None \<longleftrightarrow> cx1 - cx0 \<le> 1 \<or> cy1 - cy0 \<le> 1)
       \<and> (1 < cx1 - cx0 \<and> 1 < cy1 - cy0 \<longrightarrow>
            normalize_box x0 y0 x1 y1 imgw imgh
              = Some ((cx0 + cx1) / 2, (cy0 + cy1) / 2, cx1 - cx0, cy1 - cy0))
       \<and> (x1 \<le> x0 \<or> y1 \<le> y0 \<longrightarrow> normalize_box x0 y0 x1 y1 imgw imgh = None)
       \<and> ((x0 \<le> 0 \<and> x1 \<le> 0) \<or> (of_int imgw \<le> x0 \<and> of_int imgw \<le> x1)
            \<or> (y0 \<le> 0 \<and> y1 \<le> 0) \<or> (of_int imgh \<le> y0 \<and> of_int imgh \<le> y1)
            \<longrightarrow> normalize_box x0 y0 x1 y1 imgw imgh = None)"
proof -
  have w: "(0::real) \<le> of_int imgw" and h: "(0::real) \<le> of_int imgh"
    using assms(1,2) by simp_all
  have c: "cx0 = clamp x0 0 (of_int imgw)" "cx1 = clamp x1 0 (of_int imgw)"
    "cy0 = clamp y0 0 (of_int imgh)" "cy1 = clamp y1 0 (of_int imgh)"
    using assms(3-6) by (simp_all add: clamp_cases [OF w] clamp_cases [OF h])
  have b: "0 \<le> cx0 \<and> cx0 \<le> of_int imgw" "0 \<le> cx1 \<and> cx1 \<le> of_int imgw"
    "0 \<le> cy0 \<and> cy0 \<le> of_int imgh" "0 \<le> cy1 \<and> cy1 \<le> of_int imgh"
    unfolding c using clamp_bounds [OF w] clamp_bounds [OF h] by blast+
  have n: "normalize_box x0 y0 x1 y1 imgw imgh =
      (if cx1 - cx0 \<le> 1 \<or> cy1 - cy0 \<le> 1 then None
       else Some ((cx0 + cx1) / 2, (cy0 + cy1) / 2, cx1 - cx0, cy1 - cy0))"
    unfolding c by (simp add: normalize_box_def Let_def)
  have r: "x1 \<le> x0 \<or> y1 \<le> y0 \<longrightarrow> cx1 - cx0 \<le> 1 \<or> cy1 - cy0 \<le> 1"
    using assms(3-6) w h by (auto split: if_splits)
  have e: "(x0 \<le> 0 \<and> x1 \<le> 0) \<or> (of_int imgw \<le> x0 \<and> of_int imgw \<le> x1)
            \<or> (y0 \<le> 0 \<and> y1 \<le> 0) \<or> (of_int imgh \<le> y0 \<and> of_int imgh \<le> y1)
       \<longrightarrow> cx1 - cx0 \<le> 1 \<or> cy1 - cy0 \<le> 1"
    using assms(3-6) w h by (auto split: if_splits)
  show ?thesis using c b n r e by simp
qed

theorem normalize_box_contract_witness:
  "normalize_box 0 0 (101 / 100) 10 640 640 = Some (101 / 200, 5, 101 / 100, 10)
   \<and> normalize_box 5 5 6 30 640 640 = None"
  using normalize_box_contract [of 640 640 0 0 "101 / 100" "101 / 100" 0 0 10 10]
    normalize_box_contract [of 640 640 5 5 6 6 5 5 30 30]
  by simp

section \<open>The loop of sample\_to\_boxes\<close>

lemma normalize_box_Some:
  assumes "normalize_box x0 y0 x1 y1 imgw imgh = Some (xc, yc, bw, bh)"
  shows "1 < imgw \<and> 1 < imgh \<and> 0 \<le> xc \<and> xc \<le> of_int imgw \<and> 0 \<le> yc \<and> yc \<le> of_int imgh
       \<and> 1 < bw \<and> bw \<le> of_int imgw \<and> 1 < bh \<and> bh \<le> of_int imgh"
proof -
  have "(1::real) < of_int imgw \<and> (1::real) < of_int imgh \<and> 0 \<le> xc \<and> xc \<le> of_int imgw \<and> 0 \<le> yc \<and> yc \<le> of_int imgh
       \<and> 1 < bw \<and> bw \<le> of_int imgw \<and> 1 < bh \<and> bh \<le> of_int imgh"
    using assms
    by (auto simp: normalize_box_def Let_def clamp_def max_def min_def split: if_splits)
  then show ?thesis by simp
qed

lemma make_box_scaled:
  "imgw \<noteq> 0 \<Longrightarrow> imgh \<noteq> 0 \<Longrightarrow> make_box cid raw imgw imgh = Inr (scaled_box cid imgw imgh raw)"
  by (cases raw) (simp add: make_box_def truediv_def scaled_box_def)

lemma annotation_raw_dims:
  "annotation_raw a imgw imgh = Some raw \<Longrightarrow> 1 < imgw \<and> 1 < imgh"
  by (cases raw) (auto simp: annotation_raw_def split: option.splits dest: normalize_box_Some)

lemma annotation_to_box_scaled:
  "annotation_to_box cid imgw imgh a
     = Inr (map_option (scaled_box cid imgw imgh) (annotation_raw a imgw imgh))"
proof (cases "annotation_raw a imgw imgh")
  case None
  then show ?thesis by (simp add: annotation_to_box_def)
next
  case (Some raw)
  then have "imgw \<noteq> 0" "imgh \<noteq> 0" using annotation_raw_dims [OF Some] by auto
  then show ?thesis using Some by (simp add: annotation_to_box_def make_box_scaled)
qed

lemma boxes_loop_filter:
  "boxes_loop cid imgw imgh anns boxes
     = Inr (boxes @ map (\<lambda>a. scaled_box cid imgw imgh (the (annotation_raw a imgw imgh)))
                      (filter (\<lambda>a. annotation_raw a imgw imgh \<noteq> None) anns))"
proof (induction anns arbitrary: boxes)
  case Nil
  then show ?case by simp
next
  case (Cons a anns)
  show ?case
    by (cases "annotation_raw a imgw imgh") (auto simp: annotation_to_box_scaled Cons.IH)
qed

lemma sample_to_boxes_registered:
  assumes "dict_get sample ''class'' = JStr c" and "map_of CLASS_NAME_TO_ID c = Some cid"
    and "dict_get sample ''annotations'' = JList anns"
  shows "sample_to_boxes sample imgw imgh = boxes_loop cid imgw imgh anns []"
proof -
  have "c \<notin> IGNORED_CLASSES" "c \<noteq> NEGATIVE_CLASS"
    using assms(2) by (auto simp: CLASS_NAME_TO_ID_def IGNORED_CLASSES_def NEGATIVE_CLASS_def split: if_splits)
  then show ?thesis using assms
    by (simp add: sample_to_boxes_def in_IGNORED_CLASSES_def CLASS_NAME_TO_ID_get_def)
qed




lemma bbox_corners:
  assumes "dict_get a ''kind'' = JStr ''bbox''"
    and "as_number (dict_get a ''x'') = Some x" and "as_number (dict_get a ''y'') = Some y"
    and "as_number (dict_get a ''width'') = Some w" and "as_number (dict_get a ''height'') = Some h"
  shows "annotation_corners (JDict a) = Some (x, y, x + w, y + h)"
  using assms by (simp add: annotation_corners_def)

lemma normalize_box_in_frame:
  assumes "0 \<le> x0" "x0 \<le> x1" "x1 \<le> of_int imgw" "0 \<le> y0" "y0 \<le> y1" "y1 \<le> of_int imgh"
    and "1 < x1 - x0" "1 < y1 - y0"
  shows "normalize_box x0 y0 x1 y1 imgw imgh = Some ((x0 + x1) / 2, (y0 + y1) / 2, x1 - x0, y1 - y0)"
  using assms by (simp add: normalize_box_def clamp_def max_def min_def Let_def)

lemmas eval_defs = sample_to_boxes_def dict_get_def in_IGNORED_CLASSES_def IGNORED_CLASSES_def
  NEGATIVE_CLASS_def CLASS_NAME_TO_ID_get_def CLASS_NAME_TO_ID_def annotation_to_box_def
  annotation_raw_def annotation_corners_def normalize_box_def clamp_def make_box_def truediv_def
  bbox_annotation_def circle_annotation_def make_sample_def Let_def





section \<open>Formatting\<close>

lemma foldl_append_map: "foldl (\<lambda>lines box. lines @ [f box]) acc boxes = acc @ map f boxes"
  by (induction boxes arbitrary: acc) simp_all

lemma format_yolo_labels_map: "format_yolo_labels boxes = map format_line boxes"
  by (simp add: format_yolo_labels_def foldl_append_map)

lemma digit_char_digit: "digit_char d \<in> set ''0123456789''"
proof -
  have "d mod 10 < length ''0123456789''" by simp
  then show ?thesis unfolding digit_char_def by (rule nth_mem)
qed

lemma str_nat_digits: "str_nat n \<noteq> [] \<and> set (str_nat n) \<subseteq> set ''0123456789''"
proof (induction n rule: str_nat.induct)
  case (1 n)
  show ?case
  proof (cases "n < 10")
    case True
    then show ?thesis using digit_char_digit [of n] by (subst (1 2) str_nat.simps) simp
  next
    case False
    then show ?thesis
      using 1 digit_char_digit [of "n mod 10"] by (subst (1 2) str_nat.simps) simp
  qed
qed

lemma fixed_digits_shape:
  "length (fixed_digits k m) = k \<and> set (fixed_digits k m) \<subseteq> set ''0123456789''"
proof (induction k arbitrary: m)
  case 0
  then show ?case by simp
next
  case (Suc k)
  from Suc [of "m div 10"] digit_char_digit [of "m mod 10"] show ?case by simp
qed

lemma fraction_digits_shape:
  "length (fraction_digits m) = 6 \<and> set (fraction_digits m) \<subseteq> set ''0123456789''"
  using fixed_digits_shape [of 6 m] by (simp add: fraction_digits_def)

lemma digit_value_digit_char: "digit_value (digit_char d) = d mod 10"
proof -
  have "d mod 10 < 10" by simp
  then have k: "d mod 10 \<in> {0, 1, 2, 3, 4, 5, 6, 7, 8, 9}" by simp presburger
  have a: "\<forall>k \<in> {0, 1, 2, 3, 4, 5, 6, 7, 8, 9}. digit_value (''0123456789'' ! k) = k"
    by (simp add: digit_value_def)
  from a k have "digit_value (''0123456789'' ! (d mod 10)) = d mod 10" by (rule bspec)
  then show ?thesis by (simp only: digit_char_def)
qed

lemma decimal_value_snoc: "decimal_value (s @ [c]) = 10 * decimal_value s + digit_value c"
  by (simp add: decimal_value_def)

lemma decimal_value_str_nat: "decimal_value (str_nat n) = n"
proof (induction n rule: str_nat.induct)
  case (1 n)
  show ?case
  proof (cases "n < 10")
    case True
    then show ?thesis
      by (subst str_nat.simps) (simp add: decimal_value_def digit_value_digit_char)
  next
    case False
    then have "decimal_value (str_nat n) = 10 * decimal_value (str_nat (n div 10)) + n mod 10"
      by (subst str_nat.simps) (simp add: decimal_value_snoc digit_value_digit_char)
    then show ?thesis using 1 False by simp
  qed
qed

lemma decimal_value_fixed_digits: "decimal_value (fixed_digits k m) = m mod 10 ^ k"
proof (induction k arbitrary: m)
  case 0
  then show ?case by (simp add: decimal_value_def)
next
  case (Suc k)
  have "decimal_value (fixed_digits (Suc k) m) = 10 * ((m div 10) mod 10 ^ k) + m mod 10"
    by (simp add: decimal_value_snoc digit_value_digit_char Suc)
  also have "\<dots> = m mod (10 * 10 ^ k)"
    by (simp add: mod_mult2_eq)
  finally show ?case by simp
qed

lemma round_half_even_near: "\<bar>of_int (round_half_even r) - r\<bar> \<le> 1 / 2"
proof -
  have "of_int \<lfloor>r\<rfloor> \<le> r" "r < of_int \<lfloor>r\<rfloor> + 1" by linarith+
  then show ?thesis by (auto simp: round_half_even_def Let_def)
qed

lemma round_half_even_nonneg: "0 \<le> r \<Longrightarrow> 0 \<le> round_half_even r"
proof -
  assume "0 \<le> r"
  then have "0 \<le> \<lfloor>r\<rfloor>" by simp
  then show ?thesis by (auto simp: round_half_even_def Let_def)
qed

lemma format_6f_value:
  "\<exists>sgn ip fr. format_6f r = sgn @ ip @ ''.'' @ fr \<and> sgn = (if r < 0 then ''-'' else [])
     \<and> ip \<noteq> [] \<and> set ip \<subseteq> set ''0123456789''
     \<and> length fr = 6 \<and> set fr \<subseteq> set ''0123456789''
     \<and> \<bar>real (decimal_value ip) + real (decimal_value fr) / 1000000 - \<bar>r\<bar>\<bar> \<le> 1 / 2000000"
proof -
  define m where "m = nat (round_half_even (\<bar>r\<bar> * 1000000))"
  have f: "format_6f r = (if r < 0 then ''-'' else []) @ str_nat (m div 1000000) @ ''.''
           @ fraction_digits (m mod 1000000)"
    by (simp add: format_6f_def m_def Let_def)
  have "0 \<le> round_half_even (\<bar>r\<bar> * 1000000)"
    by (rule round_half_even_nonneg) simp
  then have "real m = of_int (round_half_even (\<bar>r\<bar> * 1000000))"
    by (simp add: m_def)
  then have n: "\<bar>real m - \<bar>r\<bar> * 1000000\<bar> \<le> 1 / 2"
    using round_half_even_near [of "\<bar>r\<bar> * 1000000"] by simp
  define q where "q = m div 1000000"
  define t where "t = m mod 1000000"
  have dq: "decimal_value (str_nat q) = q" by (rule decimal_value_str_nat)
  have "t < 1000000" by (simp add: t_def)
  then have dt: "decimal_value (fraction_digits t) = t"
    by (simp add: fraction_digits_def decimal_value_fixed_digits)
  have "q * 1000000 + t = m" by (simp add: q_def t_def)
  then have "real (q * 1000000 + t) = real m" by (simp only:)
  then have qt: "real q * 1000000 + real t = real m" by simp
  have "\<bar>real q + real t / 1000000 - \<bar>r\<bar>\<bar> \<le> 1 / 2000000"
    using n qt by linarith
  then have v: "\<bar>real (decimal_value (str_nat (m div 1000000)))
        + real (decimal_value (fraction_digits (m mod 1000000))) / 1000000 - \<bar>r\<bar>\<bar> \<le> 1 / 2000000"
    using dq dt by (simp add: q_def t_def)
  show ?thesis
    using f v str_nat_digits [of "m div 1000000"] fraction_digits_shape [of "m mod 1000000"]
    by blast
qed

lemma str_int_value:
  "\<exists>sgn ds. str_int i = sgn @ ds \<and> sgn = (if i < 0 then ''-'' else []) \<and> ds \<noteq> []
     \<and> set ds \<subseteq> set ''0123456789'' \<and> int (decimal_value ds) = \<bar>i\<bar>"
proof (cases "i < 0")
  case True
  then have "str_int i = ''-'' @ str_nat (nat (- i))" by (simp add: str_int_def)
  then show ?thesis using str_nat_digits [of "nat (- i)"] True
    by (simp add: decimal_value_str_nat)
next
  case False
  then have "str_int i = [] @ str_nat (nat i)" by (simp add: str_int_def)
  then show ?thesis using str_nat_digits [of "nat i"] False
    by (simp add: decimal_value_str_nat)
qed

lemma format_6f_eval:
  "nat (round_half_even (\<bar>r\<bar> * 1000000)) = m \<Longrightarrow>
   format_6f r = (if r < 0 then ''-'' else []) @ str_nat (m div 1000000) @ ''.''
                   @ fraction_digits (m mod 1000000)"
  by (simp add: format_6f_def Let_def)

lemma round_half_even_examples:
  "round_half_even 93750 = 93750" "round_half_even (109375 / 2) = 54688"
  "round_half_even 156250 = 156250" "round_half_even 78125 = 78125"
  "round_half_even 1000000 = 1000000" "round_half_even 375000 = 375000"
  "round_half_even (15625 / 2) = 7812" "round_half_even 1234500000 = 1234500000"
  "round_half_even (46875 / 2) = 23438" "round_half_even 0 = 0"
  "round_half_even (78125 / 2) = 39062" "round_half_even (15625 / 16777216) = 0"
  by (simp_all add: round_half_even_def Let_def)

lemma str_nat_examples:
  "str_nat 0 = ''0''" "str_nat (Suc 0) = ''1''" "str_nat 3 = ''3''" "str_nat 12 = ''12''"
  "str_nat 1234 = ''1234''"
  by (subst str_nat.simps, simp add: digit_char_def str_nat.simps)+

lemma str_int_examples: "str_int 1 = ''1''" "str_int 3 = ''3''" "str_int 12 = ''12''"
  by (simp_all add: str_int_def str_nat_examples)

lemma fraction_digits_unfold:
  "fraction_digits m =
     [digit_char (m div 10 div 10 div 10 div 10 div 10 mod 10),
      digit_char (m div 10 div 10 div 10 div 10 mod 10),
      digit_char (m div 10 div 10 div 10 mod 10),
      digit_char (m div 10 div 10 mod 10),
      digit_char (m div 10 mod 10),
      digit_char (m mod 10)]"
proof -
  have s: "(6::nat) = Suc (Suc (Suc (Suc (Suc (Suc 0)))))" by simp
  show ?thesis unfolding fraction_digits_def s fixed_digits.simps by simp
qed

lemma fraction_digits_examples:
  "fraction_digits 93750 = ''093750''" "fraction_digits 54688 = ''054688''"
  "fraction_digits 156250 = ''156250''" "fraction_digits 78125 = ''078125''"
  "fraction_digits 0 = ''000000''" "fraction_digits 375000 = ''375000''"
  "fraction_digits 7812 = ''007812''" "fraction_digits 500000 = ''500000''"
  "fraction_digits 23438 = ''023438''" "fraction_digits 39062 = ''039062''"
  by (simp_all add: fraction_digits_unfold digit_char_def)

lemma format_6f_scenario:
  "format_6f (60 / 640) = ''0.093750''" "format_6f (35 / 640) = ''0.054688''"
  "format_6f (100 / 640) = ''0.156250''" "format_6f (50 / 640) = ''0.078125''"
proof -
  show "format_6f (60 / 640) = ''0.093750''"
    by (subst format_6f_eval [where m = 93750])
      (simp_all add: round_half_even_examples str_nat_examples fraction_digits_examples)
  show "format_6f (35 / 640) = ''0.054688''"
    by (subst format_6f_eval [where m = 54688])
      (simp_all add: round_half_even_examples str_nat_examples fraction_digits_examples)
  show "format_6f (100 / 640) = ''0.156250''"
    by (subst format_6f_eval [where m = 156250])
      (simp_all add: round_half_even_examples str_nat_examples fraction_digits_examples)
  show "format_6f (50 / 640) = ''0.078125''"
    by (subst format_6f_eval [where m = 78125])
      (simp_all add: round_half_even_examples str_nat_examples fraction_digits_examples)
qed

lemma format_6f_examples:
  "format_6f 1 = ''1.000000''" "format_6f (- (3 / 8)) = ''-0.375000''"
  "format_6f (1 / 128) = ''0.007812''" "format_6f (2469 / 2) = ''1234.500000''"
  "format_6f (3 / 128) = ''0.023438''" "format_6f 0 = ''0.000000''"
  "format_6f (5 / 128) = ''0.039062''" "format_6f (- (1 / 1073741824)) = ''-0.000000''"
proof -
  show "format_6f 1 = ''1.000000''"
    by (subst format_6f_eval [where m = 1000000])
      (simp_all add: round_half_even_examples str_nat_examples fraction_digits_examples)
  show "format_6f (- (3 / 8)) = ''-0.375000''"
    by (subst format_6f_eval [where m = 375000])
      (simp_all add: round_half_even_examples str_nat_examples fraction_digits_examples)
  show "format_6f (1 / 128) = ''0.007812''"
    by (subst format_6f_eval [where m = 7812])
      (simp_all add: round_half_even_examples str_nat_examples fraction_digits_examples)
  show "format_6f (2469 / 2) = ''1234.500000''"
    by (subst format_6f_eval [where m = 1234500000])
      (simp_all add: round_half_even_examples str_nat_examples fraction_digits_examples)
  show "format_6f (3 / 128) = ''0.023438''"
    by (subst format_6f_eval [where m = 23438])
      (simp_all add: round_half_even_examples str_nat_examples fraction_digits_examples)
  show "format_6f 0 = ''0.000000''"
    by (subst format_6f_eval [where m = 0])
      (simp_all add: round_half_even_examples str_nat_examples fraction_digits_examples)
  show "format_6f (5 / 128) = ''0.039062''"
    by (subst format_6f_eval [where m = 39062])
      (simp_all add: round_half_even_examples str_nat_examples fraction_digits_examples)
  show "format_6f (- (1 / 1073741824)) = ''-0.000000''"
    by (subst format_6f_eval [where m = 0])
      (simp_all add: round_half_even_examples str_nat_examples fraction_digits_examples)
qed

section \<open>The functions on Python's integers and floats\<close>

lemma ebind_simps [simp]: "ebind (Inl e) f = Inl e" "ebind (Inr x) f = f x"
  by (simp_all add: ebind_def)

lemma DBL_LIMIT_gt: "2 < DBL_LIMIT"
  by (simp add: DBL_LIMIT_def)

lemma int_to_float_ok:
  "\<bar>real_of_int n\<bar> < DBL_LIMIT \<Longrightarrow> int_to_float rnd n = Inr (rnd (of_int n))"
  by (simp add: int_to_float_def)

lemma py_sub_cases:
  "py_sub rnd a b = (if overflow_mix a b then Inl OverflowError
     else Inr (case (a, b) of (PInt m, PInt n) \<Rightarrow> PInt (m - n)
               | _ \<Rightarrow> PFloat (rnd ((case a of PInt m \<Rightarrow> rnd (of_int m) | PFloat x \<Rightarrow> x)
                                 - (case b of PInt n \<Rightarrow> rnd (of_int n) | PFloat y \<Rightarrow> y)))))"
  by (cases a; cases b) (simp_all add: overflow_mix_def int_to_float_def)

lemma py_add_cases:
  "py_add rnd a b = (if overflow_mix a b then Inl OverflowError
     else Inr (case (a, b) of (PInt m, PInt n) \<Rightarrow> PInt (m + n)
               | _ \<Rightarrow> PFloat (rnd ((case a of PInt m \<Rightarrow> rnd (of_int m) | PFloat x \<Rightarrow> x)
                                 + (case b of PInt n \<Rightarrow> rnd (of_int n) | PFloat y \<Rightarrow> y)))))"
  by (cases a; cases b) (simp_all add: overflow_mix_def int_to_float_def)

lemma py_sub_exact:
  "py_sub exact a b = Inr p \<Longrightarrow> num_value p = num_value a - num_value b"
  by (cases a; cases b) (auto simp: py_sub_cases exact_def split: if_splits)

lemma py_add_exact:
  "py_add exact a b = Inr p \<Longrightarrow> num_value p = num_value a + num_value b"
  by (cases a; cases b) (auto simp: py_add_cases exact_def split: if_splits)

lemma py_clamp_value:
  "num_value (py_clamp v (PInt 0) (PInt w)) = clamp (num_value v) 0 (of_int w)"
  by (simp add: py_clamp_def py_min_def py_max_def clamp_def max_def min_def)

lemma py_clamp_within: "0 \<le> w \<Longrightarrow> int_within 0 w (py_clamp v (PInt 0) (PInt w))"
  by (cases v) (auto simp: py_clamp_def py_min_def py_max_def int_within_def)

lemma within_no_mix:
  "int_within lo hi a \<Longrightarrow> int_within lo' hi' b \<Longrightarrow>
   real_of_int (max \<bar>lo\<bar> \<bar>hi\<bar>) < DBL_LIMIT \<Longrightarrow> real_of_int (max \<bar>lo'\<bar> \<bar>hi'\<bar>) < DBL_LIMIT \<Longrightarrow>
   \<not> overflow_mix a b"
  by (cases a; cases b) (auto simp: overflow_mix_def int_within_def abs_if max_def split: if_splits)

lemma py_sub_within:
  "int_within 0 w a \<Longrightarrow> int_within 0 w b \<Longrightarrow> py_sub rnd a b = Inr p \<Longrightarrow> int_within (- w) w p"
  by (cases a; cases b) (auto simp: int_within_def py_sub_cases split: if_splits)

lemma py_add_within:
  "int_within 0 w a \<Longrightarrow> int_within 0 w b \<Longrightarrow> py_add rnd a b = Inr p \<Longrightarrow> int_within 0 (2 * w) p"
  by (cases a; cases b) (auto simp: int_within_def py_add_cases split: if_splits)

lemma py_sub_total:
  assumes "int_within 0 w a" and "int_within 0 w b" and "0 \<le> w" and "real_of_int w < DBL_LIMIT"
  shows "\<exists>p. py_sub rnd a b = Inr p"
proof -
  have "\<not> overflow_mix a b"
    using assms by (intro within_no_mix [of 0 w a 0 w b]) simp_all
  then show ?thesis by (simp add: py_sub_cases)
qed

lemma py_add_total:
  assumes "int_within 0 w a" and "int_within 0 w b" and "0 \<le> w" and "real_of_int w < DBL_LIMIT"
  shows "\<exists>p. py_add rnd a b = Inr p"
proof -
  have "\<not> overflow_mix a b"
    using assms by (intro within_no_mix [of 0 w a 0 w b]) simp_all
  then show ?thesis by (simp add: py_add_cases)
qed

lemma py_truediv_total:
  assumes "n \<noteq> 0" and "\<bar>real_of_int n\<bar> < DBL_LIMIT" and "int_within (- k) k p"
    and "real_of_int k < DBL_LIMIT"
  shows "\<exists>r. py_truediv rnd p n = Inr r"
proof (cases p)
  case (PInt m)
  then have m: "\<bar>real_of_int m\<bar> \<le> real_of_int k" using assms(3) by (simp add: int_within_def abs_le_iff)
  have "1 \<le> \<bar>real_of_int n\<bar>" using assms(1) by (simp add: abs_if)
  then have "\<bar>real_of_int m\<bar> / \<bar>real_of_int n\<bar> \<le> \<bar>real_of_int m\<bar> / 1"
    by (intro divide_left_mono) simp_all
  then have "\<bar>real_of_int m / real_of_int n\<bar> \<le> \<bar>real_of_int m\<bar>"
    by (simp add: abs_divide)
  then have "\<bar>real_of_int m / real_of_int n\<bar> < DBL_LIMIT" using m assms(4) by linarith
  then show ?thesis using PInt assms(1) by simp
next
  case (PFloat x)
  then show ?thesis using assms(1,2) by (simp add: int_to_float_def)
qed

lemma py_half_total:
  assumes "int_within 0 (2 * w) p" and "real_of_int w < DBL_LIMIT"
  shows "\<exists>r. py_truediv rnd p 2 = Inr r"
proof (cases p)
  case (PInt m)
  then have "0 \<le> m" "m \<le> 2 * w" using assms(1) by (simp_all add: int_within_def)
  then have "\<bar>real_of_int m / 2\<bar> \<le> real_of_int w" by (simp add: abs_if)
  then show ?thesis using PInt assms(2) by simp
next
  case (PFloat x)
  then show ?thesis using DBL_LIMIT_gt by (simp add: int_to_float_def)
qed

lemma py_truediv_exact:
  "py_truediv exact p n = Inr r \<Longrightarrow> r = num_value p / of_int n"
  by (cases p) (auto simp: exact_def int_to_float_def split: if_splits)

lemma py_normalize_box_total:
  assumes "0 < imgw" and "real_of_int imgw < DBL_LIMIT" and "0 < imgh" and "real_of_int imgh < DBL_LIMIT"
  shows "\<exists>r. py_normalize_box rnd x0 y0 x1 y1 imgw imgh = Inr r
           \<and> (\<forall>xc yc bw bh. r = Some (xc, yc, bw, bh) \<longrightarrow>
                 int_within (- imgw) imgw bw \<and> int_within (- imgh) imgh bh)"
proof -
  define cx0 where "cx0 = py_clamp x0 (PInt 0) (PInt imgw)"
  define cx1 where "cx1 = py_clamp x1 (PInt 0) (PInt imgw)"
  define cy0 where "cy0 = py_clamp y0 (PInt 0) (PInt imgh)"
  define cy1 where "cy1 = py_clamp y1 (PInt 0) (PInt imgh)"
  have w: "int_within 0 imgw cx0" "int_within 0 imgw cx1"
    and h: "int_within 0 imgh cy0" "int_within 0 imgh cy1"
    using assms(1,3) by (simp_all add: cx0_def cx1_def cy0_def cy1_def py_clamp_within)
  obtain bw where bw: "py_sub rnd cx1 cx0 = Inr bw"
    using py_sub_total [OF w(2) w(1) _ assms(2)] assms(1) by auto
  obtain bh where bh: "py_sub rnd cy1 cy0 = Inr bh"
    using py_sub_total [OF h(2) h(1) _ assms(4)] assms(3) by auto
  obtain sx where sx: "py_add rnd cx0 cx1 = Inr sx"
    using py_add_total [OF w(1) w(2) _ assms(2)] assms(1) by auto
  obtain sy where sy: "py_add rnd cy0 cy1 = Inr sy"
    using py_add_total [OF h(1) h(2) _ assms(4)] assms(3) by auto
  obtain xc where xc: "py_truediv rnd sx 2 = Inr xc"
    using py_half_total [OF py_add_within [OF w(1) w(2) sx] assms(2)] by auto
  obtain yc where yc: "py_truediv rnd sy 2 = Inr yc"
    using py_half_total [OF py_add_within [OF h(1) h(2) sy] assms(4)] by auto
  have n: "py_normalize_box rnd x0 y0 x1 y1 imgw imgh
      = (if num_value bw \<le> 1 \<or> num_value bh \<le> 1 then Inr None else Inr (Some (xc, yc, bw, bh)))"
    unfolding py_normalize_box_def Let_def
    by (simp add: bw bh sx sy xc yc
        cx0_def [symmetric] cx1_def [symmetric] cy0_def [symmetric] cy1_def [symmetric])
  show ?thesis
    using n py_sub_within [OF w(2) w(1) bw] py_sub_within [OF h(2) h(1) bh] by auto
qed

lemma py_normalize_box_exact:
  assumes "py_normalize_box exact x0 y0 x1 y1 imgw imgh = Inr r"
  shows "map_option (\<lambda>(xc, yc, bw, bh). (xc, yc, num_value bw, num_value bh)) r
     = normalize_box (num_value x0) (num_value y0) (num_value x1) (num_value y1) imgw imgh"
proof -
  define cx0 where "cx0 = py_clamp x0 (PInt 0) (PInt imgw)"
  define cx1 where "cx1 = py_clamp x1 (PInt 0) (PInt imgw)"
  define cy0 where "cy0 = py_clamp y0 (PInt 0) (PInt imgh)"
  define cy1 where "cy1 = py_clamp y1 (PInt 0) (PInt imgh)"
  note defs = cx0_def [symmetric] cx1_def [symmetric] cy0_def [symmetric] cy1_def [symmetric]
  have v: "num_value cx0 = clamp (num_value x0) 0 (of_int imgw)"
    "num_value cx1 = clamp (num_value x1) 0 (of_int imgw)"
    "num_value cy0 = clamp (num_value y0) 0 (of_int imgh)"
    "num_value cy1 = clamp (num_value y1) 0 (of_int imgh)"
    by (simp_all add: cx0_def cx1_def cy0_def cy1_def py_clamp_value)
  from assms obtain bw where bw: "py_sub exact cx1 cx0 = Inr bw"
    unfolding py_normalize_box_def Let_def defs by (cases "py_sub exact cx1 cx0") auto
  from assms obtain bh where bh: "py_sub exact cy1 cy0 = Inr bh"
    unfolding py_normalize_box_def Let_def defs by (cases "py_sub exact cy1 cy0") (auto simp: bw)
  note vb = py_sub_exact [OF bw] py_sub_exact [OF bh]
  show ?thesis
  proof (cases "num_value bw \<le> 1 \<or> num_value bh \<le> 1")
    case True
    then have "r = None" using assms unfolding py_normalize_box_def Let_def defs by (auto simp: bw bh)
    then show ?thesis using True vb v by (auto simp: normalize_box_def Let_def)
  next
    case False
    from assms False obtain sx where sx: "py_add exact cx0 cx1 = Inr sx"
      unfolding py_normalize_box_def Let_def defs by (cases "py_add exact cx0 cx1") (auto simp: bw bh)
    from assms False obtain xc where xc: "py_truediv exact sx 2 = Inr xc"
      unfolding py_normalize_box_def Let_def defs by (cases "py_truediv exact sx 2") (auto simp: bw bh sx)
    from assms False obtain sy where sy: "py_add exact cy0 cy1 = Inr sy"
      unfolding py_normalize_box_def Let_def defs
      by (cases "py_add exact cy0 cy1") (auto simp: bw bh sx xc)
    from assms False obtain yc where yc: "py_truediv exact sy 2 = Inr yc"
      unfolding py_normalize_box_def Let_def defs
      by (cases "py_truediv exact sy 2") (auto simp: bw bh sx xc sy)
    have r: "r = Some (xc, yc, bw, bh)"
      using assms False unfolding py_normalize_box_def Let_def defs by (auto simp: bw bh sx xc sy yc)
    have "xc = (num_value cx0 + num_value cx1) / 2" "yc = (num_value cy0 + num_value cy1) / 2"
      using py_truediv_exact [OF xc] py_truediv_exact [OF yc] py_add_exact [OF sx] py_add_exact [OF sy]
      by simp_all
    then show ?thesis using False r vb v by (auto simp: normalize_box_def Let_def)
  qed
qed

lemma as_number_as_pynum: "as_number j = map_option num_value (as_pynum j)"
  by (cases j) simp_all

lemma as_pynum_None: "as_pynum j = None \<longleftrightarrow> as_number j = None"
  by (simp add: as_number_as_pynum)

lemma py_annotation_corners_cases:
  "py_annotation_corners rnd a =
     (if annotation_overflows a then Inl OverflowError
      else Inr (case py_annotation_corners rnd a of Inr c \<Rightarrow> c | Inl e \<Rightarrow> None))"
  by (cases a)
    (auto simp: py_annotation_corners_def annotation_overflows_def Let_def py_sub_cases py_add_cases
      overflow_mix_def
      split: json.splits option.splits pynum.splits)

lemma py_annotation_corners_malformed:
  "malformed_annotation a \<Longrightarrow> py_annotation_corners rnd a = Inr None"
  by (cases a)
    (auto simp: malformed_annotation_def py_annotation_corners_def Let_def as_pynum_None [symmetric]
      split: json.splits option.splits if_splits)

lemma py_annotation_corners_exact:
  "py_annotation_corners exact a = Inr c \<Longrightarrow>
   map_option (\<lambda>(x0, y0, x1, y1). (num_value x0, num_value y0, num_value x1, num_value y1)) c
     = annotation_corners a"
  by (cases a)
    (auto simp: py_annotation_corners_def annotation_corners_def Let_def as_number_as_pynum
      py_sub_cases py_add_cases exact_def
      split: json.splits option.splits if_splits pynum.splits)

lemma py_annotation_raw_total:
  assumes "0 < imgw" and "real_of_int imgw < DBL_LIMIT" and "0 < imgh" and "real_of_int imgh < DBL_LIMIT"
    and "\<not> annotation_overflows a"
  shows "\<exists>r. py_annotation_raw rnd a imgw imgh = Inr r
           \<and> (\<forall>xc yc bw bh. r = Some (xc, yc, bw, bh) \<longrightarrow>
                 int_within (- imgw) imgw bw \<and> int_within (- imgh) imgh bh)"
proof -
  have "\<exists>c. py_annotation_corners rnd a = Inr c"
    using assms(5) py_annotation_corners_cases [of rnd a] by (cases "py_annotation_corners rnd a") auto
  then obtain c where c: "py_annotation_corners rnd a = Inr c" by blast
  show ?thesis
  proof (cases c)
    case None
    then show ?thesis by (simp add: py_annotation_raw_def c)
  next
    case (Some q)
    obtain x0 y0 x1 y1 where q: "q = (x0, y0, x1, y1)" by (cases q) auto
    show ?thesis
      using py_normalize_box_total [OF assms(1-4), of rnd x0 y0 x1 y1]
      by (simp add: py_annotation_raw_def c Some q)
  qed
qed

lemma py_make_box_total:
  assumes "0 < imgw" and "real_of_int imgw < DBL_LIMIT" and "0 < imgh" and "real_of_int imgh < DBL_LIMIT"
    and "int_within (- imgw) imgw bw" and "int_within (- imgh) imgh bh"
  shows "\<exists>b. py_make_box rnd cid (xc, yc, bw, bh) imgw imgh = Inr b"
proof -
  have w: "imgw \<noteq> 0" "\<bar>real_of_int imgw\<bar> < DBL_LIMIT" and h: "imgh \<noteq> 0" "\<bar>real_of_int imgh\<bar> < DBL_LIMIT"
    using assms(1-4) by simp_all
  have f: "int_within (- imgw) imgw (PFloat xc)" "int_within (- imgh) imgh (PFloat yc)"
    by (simp_all add: int_within_def)
  obtain r1 where r1: "py_truediv rnd (PFloat xc) imgw = Inr r1"
    using py_truediv_total [OF w f(1) assms(2)] by auto
  obtain r2 where r2: "py_truediv rnd (PFloat yc) imgh = Inr r2"
    using py_truediv_total [OF h f(2) assms(4)] by auto
  obtain r3 where r3: "py_truediv rnd bw imgw = Inr r3"
    using py_truediv_total [OF w assms(5) assms(2)] by auto
  obtain r4 where r4: "py_truediv rnd bh imgh = Inr r4"
    using py_truediv_total [OF h assms(6) assms(4)] by auto
  show ?thesis by (simp add: py_make_box_def r1 r2 r3 r4 del: py_truediv.simps)
qed

lemma py_annotation_to_box_total:
  assumes "0 < imgw" and "real_of_int imgw < DBL_LIMIT" and "0 < imgh" and "real_of_int imgh < DBL_LIMIT"
    and "\<not> annotation_overflows a"
  shows "\<exists>r. py_annotation_to_box rnd cid imgw imgh a = Inr r"
proof -
  from py_annotation_raw_total [OF assms, of rnd] obtain r
    where r: "py_annotation_raw rnd a imgw imgh = Inr r"
      and b: "\<forall>xc yc bw bh. r = Some (xc, yc, bw, bh) \<longrightarrow>
                 int_within (- imgw) imgw bw \<and> int_within (- imgh) imgh bh"
    by blast
  show ?thesis
  proof (cases r)
    case None
    then show ?thesis by (simp add: py_annotation_to_box_def r)
  next
    case (Some q)
    obtain xc yc bw bh where q: "q = (xc, yc, bw, bh)" by (cases q) auto
    from b Some q have "int_within (- imgw) imgw bw" "int_within (- imgh) imgh bh" by auto
    from py_make_box_total [OF assms(1-4) this, of rnd cid xc yc]
    obtain bx where "py_make_box rnd cid (xc, yc, bw, bh) imgw imgh = Inr bx" by blast
    then show ?thesis by (simp add: py_annotation_to_box_def r Some q)
  qed
qed

lemma py_annotation_to_box_malformed:
  "malformed_annotation a \<Longrightarrow> py_annotation_to_box rnd cid imgw imgh a = Inr None"
  by (simp add: py_annotation_to_box_def py_annotation_raw_def py_annotation_corners_malformed)

lemma py_annotation_to_box_overflow:
  "annotation_overflows a \<Longrightarrow> py_annotation_to_box rnd cid imgw imgh a = Inl OverflowError"
  by (subst py_annotation_to_box_def, subst py_annotation_raw_def, subst py_annotation_corners_cases)
    simp

lemma py_boxes_loop_emitted:
  "\<forall>a \<in> set anns. \<exists>r. py_annotation_to_box rnd cid imgw imgh a = Inr r \<Longrightarrow>
   py_boxes_loop rnd cid imgw imgh anns boxes
     = Inr (boxes @ concat (map (py_emitted rnd cid imgw imgh) anns))"
proof (induction anns arbitrary: boxes)
  case Nil
  then show ?case by simp
next
  case (Cons a anns)
  from Cons.prems obtain r where r: "py_annotation_to_box rnd cid imgw imgh a = Inr r" by auto
  from Cons.prems have "\<forall>a \<in> set anns. \<exists>r. py_annotation_to_box rnd cid imgw imgh a = Inr r" by simp
  note ih = Cons.IH [OF this]
  show ?case by (cases r) (simp_all add: r ih py_emitted_def)
qed

lemma py_sample_to_boxes_registered:
  assumes "dict_get sample ''class'' = JStr c" and "map_of CLASS_NAME_TO_ID c = Some cid"
    and "dict_get sample ''annotations'' = JList anns"
  shows "py_sample_to_boxes rnd sample imgw imgh = py_boxes_loop rnd cid imgw imgh anns []"
proof -
  have "c \<notin> IGNORED_CLASSES" "c \<noteq> NEGATIVE_CLASS"
    using assms(2) by (auto simp: CLASS_NAME_TO_ID_def IGNORED_CLASSES_def NEGATIVE_CLASS_def split: if_splits)
  then show ?thesis using assms
    by (simp add: py_sample_to_boxes_def in_IGNORED_CLASSES_def CLASS_NAME_TO_ID_get_def)
qed

lemma py_sample_to_boxes_unhashable:
  "\<not> hashable (dict_get sample ''class'') \<Longrightarrow> py_sample_to_boxes rnd sample imgw imgh = Inl TypeError"
  by (simp add: py_sample_to_boxes_def in_IGNORED_CLASSES_def)

lemma py_sample_to_boxes_total:
  assumes "0 < imgw" and "real_of_int imgw < DBL_LIMIT" and "0 < imgh" and "real_of_int imgh < DBL_LIMIT"
    and "hashable (dict_get sample ''class'')"
    and "\<forall>anns. dict_get sample ''annotations'' = JList anns \<longrightarrow> (\<forall>a \<in> set anns. \<not> annotation_overflows a)"
  shows "\<exists>boxes. py_sample_to_boxes rnd sample imgw imgh = Inr boxes"
proof (cases "\<exists>c cid anns. dict_get sample ''class'' = JStr c \<and> map_of CLASS_NAME_TO_ID c = Some cid
      \<and> dict_get sample ''annotations'' = JList anns")
  case True
  then obtain c cid anns where c: "dict_get sample ''class'' = JStr c"
    "map_of CLASS_NAME_TO_ID c = Some cid" "dict_get sample ''annotations'' = JList anns" by blast
  have "\<forall>a \<in> set anns. \<exists>r. py_annotation_to_box rnd cid imgw imgh a = Inr r"
    using assms(6) c(3) py_annotation_to_box_total [OF assms(1-4)] by blast
  then show ?thesis
    by (simp add: py_sample_to_boxes_registered [OF c] py_boxes_loop_emitted)
next
  case False
  then show ?thesis using assms(5)
    by (auto simp: py_sample_to_boxes_def in_IGNORED_CLASSES_def CLASS_NAME_TO_ID_get_def Let_def
        split: json.splits option.splits)
qed

lemma ebind_eq_Inr: "ebind m f = Inr y \<longleftrightarrow> (\<exists>x. m = Inr x \<and> f x = Inr y)"
  by (cases m) simp_all

lemma py_make_box_exact:
  assumes "py_make_box exact cid (xc, yc, bw, bh) imgw imgh = Inr b"
  shows "b = \<lparr>class_id = cid, x_center = xc / of_int imgw, y_center = yc / of_int imgh,
              width = num_value bw / of_int imgw, height = num_value bh / of_int imgh\<rparr>"
proof -
  from assms obtain r1 r2 r3 r4 where r: "py_truediv exact (PFloat xc) imgw = Inr r1"
    "py_truediv exact (PFloat yc) imgh = Inr r2" "py_truediv exact bw imgw = Inr r3"
    "py_truediv exact bh imgh = Inr r4"
    and b: "b = \<lparr>class_id = cid, x_center = r1, y_center = r2, width = r3, height = r4\<rparr>"
    by (auto simp: py_make_box_def ebind_eq_Inr simp del: py_truediv.simps)
  show ?thesis
    using py_truediv_exact [OF r(1)] py_truediv_exact [OF r(2)] py_truediv_exact [OF r(3)]
      py_truediv_exact [OF r(4)] by (simp add: b)
qed

text \<open>
  With no rounding, a call that returns gives what the functions on exact values give.
\<close>

lemma py_annotation_to_box_exact:
  assumes "py_annotation_to_box exact cid imgw imgh a = Inr r"
  shows "annotation_to_box cid imgw imgh a = Inr r"
proof -
  from assms obtain raw where raw: "py_annotation_raw exact a imgw imgh = Inr raw"
    and r: "(case raw of None \<Rightarrow> Inr None
             | Some q \<Rightarrow> ebind (py_make_box exact cid q imgw imgh) (\<lambda>b. Inr (Some b))) = Inr r"
    by (auto simp: py_annotation_to_box_def ebind_eq_Inr)
  from raw obtain c where c: "py_annotation_corners exact a = Inr c"
    and n: "(case c of None \<Rightarrow> Inr None
             | Some (x0, y0, x1, y1) \<Rightarrow> py_normalize_box exact x0 y0 x1 y1 imgw imgh) = Inr raw"
    by (auto simp: py_annotation_raw_def ebind_eq_Inr)
  note ce = py_annotation_corners_exact [OF c]
  have ar: "annotation_raw a imgw imgh
      = map_option (\<lambda>(xc, yc, bw, bh). (xc, yc, num_value bw, num_value bh)) raw"
  proof (cases c)
    case None
    then show ?thesis using ce n by (simp add: annotation_raw_def)
  next
    case (Some q)
    obtain x0 y0 x1 y1 where q: "q = (x0, y0, x1, y1)" by (cases q) auto
    from n Some q have "py_normalize_box exact x0 y0 x1 y1 imgw imgh = Inr raw" by simp
    from py_normalize_box_exact [OF this] ce [symmetric] Some q
    show ?thesis by (simp add: annotation_raw_def)
  qed
  show ?thesis
  proof (cases raw)
    case None
    then show ?thesis using r ar by (simp add: annotation_to_box_scaled)
  next
    case (Some q)
    obtain xc yc bw bh where q: "q = (xc, yc, bw, bh)" by (cases q) auto
    from r Some q obtain b where b: "py_make_box exact cid (xc, yc, bw, bh) imgw imgh = Inr b"
      and rb: "r = Some b" by (auto simp: ebind_eq_Inr)
    from py_make_box_exact [OF b] have "b = scaled_box cid imgw imgh (xc, yc, num_value bw, num_value bh)"
      by (simp add: scaled_box_def)
    then show ?thesis using ar Some q rb by (simp add: annotation_to_box_scaled)
  qed
qed

lemma py_boxes_loop_exact:
  "py_boxes_loop exact cid imgw imgh anns boxes = Inr res \<Longrightarrow>
   boxes_loop cid imgw imgh anns boxes = Inr res"
proof (induction anns arbitrary: boxes)
  case Nil
  then show ?case by simp
next
  case (Cons a anns)
  from Cons.prems obtain r where r: "py_annotation_to_box exact cid imgw imgh a = Inr r"
    by (cases "py_annotation_to_box exact cid imgw imgh a") auto
  note e = py_annotation_to_box_exact [OF r]
  show ?case using Cons.prems Cons.IH by (cases r) (simp_all add: r e)
qed

lemma py_sample_to_boxes_exact:
  "py_sample_to_boxes exact sample imgw imgh = Inr boxes \<Longrightarrow>
   sample_to_boxes sample imgw imgh = Inr boxes"
  by (auto simp: py_sample_to_boxes_def sample_to_boxes_def Let_def py_boxes_loop_exact
      split: sum.splits if_splits option.splits json.splits)

subsection \<open>Examples\<close>


lemmas py_eval_defs = py_sample_to_boxes_def py_annotation_to_box_def py_annotation_raw_def
  py_annotation_corners_def py_normalize_box_def py_clamp_def py_min_def py_max_def py_make_box_def
  int_to_float_def DBL_LIMIT_def dict_get_def in_IGNORED_CLASSES_def IGNORED_CLASSES_def
  NEGATIVE_CLASS_def CLASS_NAME_TO_ID_get_def CLASS_NAME_TO_ID_def bbox_annotation_def
  circle_annotation_def make_sample_def Let_def



lemma overflow_radius_sample:
  "py_sample_to_boxes round_double (make_sample (JStr ''stop_sign'')
     [circle_annotation (JFloat (11 / 2)) (JFloat (11 / 2)) (JInt (10 ^ 310))]) 640 480
   = Inl OverflowError"
  by (simp add: py_eval_defs)

lemma overflow_width:
  "py_sample_to_boxes round_double scenario_B (10 ^ 310) 640 = Inl OverflowError"
  by (simp add: scenario_B_def py_eval_defs)

lemma unhashable_py:
  "py_sample_to_boxes round_double [(''class'', JList []), (''annotations'', JList [])] 640 480
   = Inl TypeError"
  by (simp add: py_eval_defs)


lemma py_emitted_examples:
  "py_emitted exact 3 640 480 (bbox_annotation (JInt 20) (JFloat (61 / 2)) (JInt 200) (JInt 100))
     = [\<lparr>class_id = 3, x_center = 120 / 640, y_center = (161 / 2) / 480, width = 200 / 640, height = 100 / 480\<rparr>]"
  "py_emitted exact 3 640 480 (bbox_annotation (JInt 20) (JStr ''30'') (JInt 200) (JInt 100)) = []"
  "py_emitted exact 3 640 480 (circle_annotation (JInt 5) (JInt 5) (JInt 20))
     = [\<lparr>class_id = 3, x_center = (25 / 2) / 640, y_center = (25 / 2) / 480, width = 25 / 640, height = 25 / 480\<rparr>]"
  by (simp_all add: py_emitted_def py_eval_defs exact_def)

section \<open>Claims about sample\_to\_boxes\<close>

text \<open>
  Claim C2. \<^verbatim>\<open>sample_to_boxes\<close> answers the empty list, and raises nothing, when the
  class of the sample is absent, an ignored class, the negative class or a string that is
  not registered, and also when the class is registered and the annotations are not a list.
\<close>

theorem sample_to_boxes_empty:
  assumes "map_of sample ''class'' = None
         \<or> (\<exists>s. dict_get sample ''class'' = JStr s
                \<and> (s \<in> IGNORED_CLASSES \<or> s = NEGATIVE_CLASS \<or> map_of CLASS_NAME_TO_ID s = None))
         \<or> (\<exists>s cid. dict_get sample ''class'' = JStr s \<and> map_of CLASS_NAME_TO_ID s = Some cid
                \<and> (\<forall>anns. dict_get sample ''annotations'' \<noteq> JList anns))"
  shows "sample_to_boxes sample imgw imgh = Inr []"
  using assms
  by (auto simp: sample_to_boxes_def in_IGNORED_CLASSES_def CLASS_NAME_TO_ID_get_def dict_get_def
      split: json.splits option.splits)

theorem sample_to_boxes_empty_witness:
  "sample_to_boxes [] 640 480 = Inr []
   \<and> sample_to_boxes (make_sample (JStr ''dense_cover'') [bbox_annotation (JInt 10) (JInt 10) (JInt 100) (JInt 50)]) 640 480 = Inr []
   \<and> sample_to_boxes (make_sample (JStr ''negative'') []) 640 480 = Inr []
   \<and> sample_to_boxes (make_sample (JStr ''road_debris'') [bbox_annotation (JInt 10) (JInt 10) (JInt 100) (JInt 50)]) 640 480 = Inr []
   \<and> sample_to_boxes [(''class'', JStr ''billboard''), (''annotations'', JInt 7)] 640 480 = Inr []"
proof -
  have 1: "map_of ([] :: (string \<times> json) list) ''class'' = None" by simp
  have 2: "dict_get (make_sample (JStr ''dense_cover'') [bbox_annotation (JInt 10) (JInt 10) (JInt 100) (JInt 50)]) ''class'' = JStr ''dense_cover''
       \<and> ''dense_cover'' \<in> IGNORED_CLASSES"
    by (simp add: dict_get_def make_sample_def IGNORED_CLASSES_def)
  have 3: "dict_get (make_sample (JStr ''negative'') []) ''class'' = JStr ''negative'' \<and> ''negative'' = NEGATIVE_CLASS"
    by (simp add: dict_get_def make_sample_def NEGATIVE_CLASS_def)
  have 4: "dict_get (make_sample (JStr ''road_debris'') [bbox_annotation (JInt 10) (JInt 10) (JInt 100) (JInt 50)]) ''class'' = JStr ''road_debris''
       \<and> map_of CLASS_NAME_TO_ID ''road_debris'' = None"
    by (simp add: dict_get_def make_sample_def CLASS_NAME_TO_ID_def)
  have 5: "dict_get [(''class'', JStr ''billboard''), (''annotations'', JInt 7)] ''class'' = JStr ''billboard''
       \<and> map_of CLASS_NAME_TO_ID ''billboard'' = Some 2
       \<and> (\<forall>anns. dict_get [(''class'', JStr ''billboard''), (''annotations'', JInt 7)] ''annotations'' \<noteq> JList anns)"
    by (simp add: dict_get_def CLASS_NAME_TO_ID_def)
  show ?thesis
    using sample_to_boxes_empty [of "[]" 640 480] 1
      sample_to_boxes_empty [of "make_sample (JStr ''dense_cover'') [bbox_annotation (JInt 10) (JInt 10) (JInt 100) (JInt 50)]" 640 480] 2
      sample_to_boxes_empty [of "make_sample (JStr ''negative'') []" 640 480] 3
      sample_to_boxes_empty [of "make_sample (JStr ''road_debris'') [bbox_annotation (JInt 10) (JInt 10) (JInt 100) (JInt 50)]" 640 480] 4
      sample_to_boxes_empty [of "[(''class'', JStr ''billboard''), (''annotations'', JInt 7)]" 640 480] 5
    by blast
qed






text \<open>
  Claim C3. A \<^verbatim>\<open>bbox\<close> annotation of a sample with a registered class, with numeric
  fields, width and height above 1 and its rectangle inside the image, yields a box
  which, multiplied by the image dimensions, gives back the centre and the size of the
  rectangle.
\<close>

theorem bbox_round_trip:
  assumes "dict_get sample ''class'' = JStr c" and "map_of CLASS_NAME_TO_ID c = Some cid"
    and "dict_get sample ''annotations'' = JList anns" and "JDict a \<in> set anns"
    and "dict_get a ''kind'' = JStr ''bbox''"
    and "as_number (dict_get a ''x'') = Some x" and "as_number (dict_get a ''y'') = Some y"
    and "as_number (dict_get a ''width'') = Some w" and "as_number (dict_get a ''height'') = Some h"
    and "1 < w" and "1 < h"
    and "0 \<le> x" and "x + w \<le> of_int imgw" and "0 \<le> y" and "y + h \<le> of_int imgh"
  shows "\<exists>boxes b. sample_to_boxes sample imgw imgh = Inr boxes
           \<and> annotation_to_box cid imgw imgh (JDict a) = Inr (Some b) \<and> b \<in> set boxes
           \<and> class_id b = cid
           \<and> x_center b * of_int imgw = x + w / 2 \<and> y_center b * of_int imgh = y + h / 2
           \<and> width b * of_int imgw = w \<and> height b * of_int imgh = h"
proof -
  let ?raw = "((x + (x + w)) / 2, (y + (y + h)) / 2, x + w - x, y + h - y)"
  let ?b = "scaled_box cid imgw imgh ?raw"
  have d: "(0::real) < of_int imgw" "(0::real) < of_int imgh"
    using assms(10-15) by linarith+
  have n: "normalize_box x y (x + w) (y + h) imgw imgh = Some ?raw"
    using assms(10-15) by (intro normalize_box_in_frame) simp_all
  have raw: "annotation_raw (JDict a) imgw imgh = Some ?raw"
    using bbox_corners [OF assms(5-9)] n by (simp add: annotation_raw_def)
  have 1: "annotation_to_box cid imgw imgh (JDict a) = Inr (Some ?b)"
    by (simp add: annotation_to_box_scaled raw)
  have 2: "sample_to_boxes sample imgw imgh
     = Inr (map (\<lambda>a. scaled_box cid imgw imgh (the (annotation_raw a imgw imgh)))
                (filter (\<lambda>a. annotation_raw a imgw imgh \<noteq> None) anns))"
    using sample_to_boxes_registered [OF assms(1-3)] by (simp add: boxes_loop_filter)
  have 3: "?b \<in> set (map (\<lambda>a. scaled_box cid imgw imgh (the (annotation_raw a imgw imgh)))
                (filter (\<lambda>a. annotation_raw a imgw imgh \<noteq> None) anns))"
    using assms(4) raw by force
  have 4: "class_id ?b = cid
           \<and> x_center ?b * of_int imgw = x + w / 2 \<and> y_center ?b * of_int imgh = y + h / 2
           \<and> width ?b * of_int imgw = w \<and> height ?b * of_int imgh = h"
    using d by (simp add: scaled_box_def field_simps)
  show ?thesis using 1 2 3 4 by blast
qed

theorem bbox_round_trip_witness:
  "\<exists>boxes b. sample_to_boxes (make_sample (JStr ''billboard'')
        [circle_annotation (JInt 5) (JInt 5) (JInt 20),
         bbox_annotation (JInt 20) (JFloat (61 / 2)) (JInt 200) (JInt 100)]) 640 480 = Inr boxes
     \<and> annotation_to_box 2 640 480 (bbox_annotation (JInt 20) (JFloat (61 / 2)) (JInt 200) (JInt 100))
         = Inr (Some b)
     \<and> b \<in> set boxes \<and> class_id b = 2
     \<and> x_center b * 640 = 120 \<and> y_center b * 480 = 161 / 2 \<and> width b * 640 = 200 \<and> height b * 480 = 100"
proof -
  let ?a = "[(''kind'', JStr ''bbox''), (''x'', JInt 20), (''y'', JFloat (61 / 2)),
             (''width'', JInt 200), (''height'', JInt 100)]"
  let ?anns = "[circle_annotation (JInt 5) (JInt 5) (JInt 20),
         bbox_annotation (JInt 20) (JFloat (61 / 2)) (JInt 200) (JInt 100)]"
  have a: "bbox_annotation (JInt 20) (JFloat (61 / 2)) (JInt 200) (JInt 100) = JDict ?a"
    by (simp add: bbox_annotation_def)
  have 1: "dict_get (make_sample (JStr ''billboard'') ?anns) ''class'' = JStr ''billboard''"
    and 2: "map_of CLASS_NAME_TO_ID ''billboard'' = Some 2"
    and 3: "dict_get (make_sample (JStr ''billboard'') ?anns) ''annotations'' = JList ?anns"
    and 4: "JDict ?a \<in> set ?anns"
    and 5: "dict_get ?a ''kind'' = JStr ''bbox''"
    and 6: "as_number (dict_get ?a ''x'') = Some 20" "as_number (dict_get ?a ''y'') = Some (61 / 2)"
      "as_number (dict_get ?a ''width'') = Some 200" "as_number (dict_get ?a ''height'') = Some 100"
    by (simp_all add: dict_get_def make_sample_def CLASS_NAME_TO_ID_def bbox_annotation_def)
  show ?thesis
    using bbox_round_trip [OF 1 2 3 4 5 6, of 640 480] by (simp add: a)
qed




text \<open>
  Claim C5, as amended. Take positive image dimensions in the double range and a sample
  in which no annotation makes an integer too large for a double meet a float. With
  any rounding of the float results, \<^verbatim>\<open>sample_to_boxes\<close> then raises nothing when the class
  has a hash (it is absent, \<^verbatim>\<open>None\<close>, a boolean, a number or a string) and raises
  \<^verbatim>\<open>TypeError\<close> when the class is a list or a dict; for a registered class the result is
  the boxes of the annotations, each on its own and in order; and a malformed annotation
  adds none.
\<close>

theorem py_sample_to_boxes_never_raises:
  assumes "0 < imgw" and "real_of_int imgw < DBL_LIMIT" and "0 < imgh" and "real_of_int imgh < DBL_LIMIT"
    and "\<forall>anns. dict_get sample ''annotations'' = JList anns
           \<longrightarrow> (\<forall>a \<in> set anns. \<not> annotation_overflows a)"
  shows "(hashable (dict_get sample ''class'')
            \<longrightarrow> (\<exists>boxes. py_sample_to_boxes rnd sample imgw imgh = Inr boxes))
       \<and> (\<not> hashable (dict_get sample ''class'')
            \<longrightarrow> py_sample_to_boxes rnd sample imgw imgh = Inl TypeError)
       \<and> (\<forall>c cid anns. dict_get sample ''class'' = JStr c \<and> map_of CLASS_NAME_TO_ID c = Some cid
              \<and> dict_get sample ''annotations'' = JList anns
            \<longrightarrow> py_sample_to_boxes rnd sample imgw imgh
                  = Inr (concat (map (py_emitted rnd cid imgw imgh) anns)))
       \<and> (\<forall>a cid. malformed_annotation a
            \<longrightarrow> py_annotation_to_box rnd cid imgw imgh a = Inr None
              \<and> py_emitted rnd cid imgw imgh a = [])"
proof -
  have 1: "hashable (dict_get sample ''class'')
            \<longrightarrow> (\<exists>boxes. py_sample_to_boxes rnd sample imgw imgh = Inr boxes)"
    using py_sample_to_boxes_total [OF assms(1-4) _ assms(5)] by blast
  have 2: "\<not> hashable (dict_get sample ''class'')
            \<longrightarrow> py_sample_to_boxes rnd sample imgw imgh = Inl TypeError"
    using py_sample_to_boxes_unhashable by blast
  have 3: "\<forall>c cid anns. dict_get sample ''class'' = JStr c \<and> map_of CLASS_NAME_TO_ID c = Some cid
              \<and> dict_get sample ''annotations'' = JList anns
            \<longrightarrow> py_sample_to_boxes rnd sample imgw imgh
                  = Inr (concat (map (py_emitted rnd cid imgw imgh) anns))"
  proof (intro allI impI)
    fix c cid anns
    assume h: "dict_get sample ''class'' = JStr c \<and> map_of CLASS_NAME_TO_ID c = Some cid
              \<and> dict_get sample ''annotations'' = JList anns"
    then have "\<forall>a \<in> set anns. \<exists>r. py_annotation_to_box rnd cid imgw imgh a = Inr r"
      using assms(5) py_annotation_to_box_total [OF assms(1-4)] by blast
    then show "py_sample_to_boxes rnd sample imgw imgh
                  = Inr (concat (map (py_emitted rnd cid imgw imgh) anns))"
      using h by (simp add: py_sample_to_boxes_registered [of sample c cid anns] py_boxes_loop_emitted)
  qed
  have 4: "\<forall>a cid. malformed_annotation a
            \<longrightarrow> py_annotation_to_box rnd cid imgw imgh a = Inr None
              \<and> py_emitted rnd cid imgw imgh a = []"
    by (simp add: py_annotation_to_box_malformed py_emitted_def)
  from 1 2 3 4 show ?thesis by (intro conjI)
qed

theorem py_sample_to_boxes_never_raises_witness:
  "py_sample_to_boxes exact (make_sample (JStr ''stop_sign'')
      [bbox_annotation (JInt 20) (JFloat (61 / 2)) (JInt 200) (JInt 100),
       bbox_annotation (JInt 20) (JStr ''30'') (JInt 200) (JInt 100),
       circle_annotation (JInt 5) (JInt 5) (JInt 20)]) 640 480
   = Inr [\<lparr>class_id = 3, x_center = 120 / 640, y_center = (161 / 2) / 480, width = 200 / 640, height = 100 / 480\<rparr>,
          \<lparr>class_id = 3, x_center = (25 / 2) / 640, y_center = (25 / 2) / 480, width = 25 / 640, height = 25 / 480\<rparr>]
   \<and> py_annotation_to_box exact 3 640 480 (bbox_annotation (JInt 20) (JStr ''30'') (JInt 200) (JInt 100))
       = Inr None
   \<and> py_sample_to_boxes exact [(''class'', JDict []), (''annotations'', JList [])] 640 480 = Inl TypeError"
proof -
  let ?a1 = "bbox_annotation (JInt 20) (JFloat (61 / 2)) (JInt 200) (JInt 100)"
  let ?a2 = "bbox_annotation (JInt 20) (JStr ''30'') (JInt 200) (JInt 100)"
  let ?a3 = "circle_annotation (JInt 5) (JInt 5) (JInt 20)"
  let ?s = "make_sample (JStr ''stop_sign'') [?a1, ?a2, ?a3]"
  let ?t = "[(''class'', JDict []), (''annotations'', JList [])]"
  have d: "(0::int) < 640" "real_of_int 640 < DBL_LIMIT" "(0::int) < 480" "real_of_int 480 < DBL_LIMIT"
    by (simp_all add: DBL_LIMIT_def)
  have o: "\<not> annotation_overflows ?a1" "\<not> annotation_overflows ?a2" "\<not> annotation_overflows ?a3"
    by (simp_all add: annotation_overflows_def overflow_mix_def bbox_annotation_def
        circle_annotation_def dict_get_def DBL_LIMIT_def)
  have s: "dict_get ?s ''annotations'' = JList [?a1, ?a2, ?a3]"
    "dict_get ?s ''class'' = JStr ''stop_sign''" "map_of CLASS_NAME_TO_ID ''stop_sign'' = Some 3"
    by (simp_all add: dict_get_def make_sample_def CLASS_NAME_TO_ID_def)
  have hs: "\<forall>anns. dict_get ?s ''annotations'' = JList anns
           \<longrightarrow> (\<forall>a \<in> set anns. \<not> annotation_overflows a)"
    using o by (simp add: s)
  have ht: "\<forall>anns. dict_get ?t ''annotations'' = JList anns
           \<longrightarrow> (\<forall>a \<in> set anns. \<not> annotation_overflows a)"
    by (simp add: dict_get_def)
  have m: "malformed_annotation ?a2"
    by (simp add: malformed_annotation_def bbox_annotation_def dict_get_def)
  have u: "\<not> hashable (dict_get ?t ''class'')" by (simp add: dict_get_def)
  note ts = py_sample_to_boxes_never_raises [OF d hs, of exact]
  note tt = py_sample_to_boxes_never_raises [OF d ht, of exact]
  from ts s have "py_sample_to_boxes exact ?s 640 480
      = Inr (concat (map (py_emitted exact 3 640 480) [?a1, ?a2, ?a3]))" by blast
  then have 1: "py_sample_to_boxes exact ?s 640 480
   = Inr [\<lparr>class_id = 3, x_center = 120 / 640, y_center = (161 / 2) / 480, width = 200 / 640, height = 100 / 480\<rparr>,
          \<lparr>class_id = 3, x_center = (25 / 2) / 640, y_center = (25 / 2) / 480, width = 25 / 640, height = 25 / 480\<rparr>]"
    by (simp only: list.map concat.simps py_emitted_examples append.simps)
  from ts m have 2: "py_annotation_to_box exact 3 640 480 ?a2 = Inr None" by blast
  from tt u have 3: "py_sample_to_boxes exact ?t 640 480 = Inl TypeError" by blast
  from 1 2 3 show ?thesis by (intro conjI)
qed

text \<open>
  Without those conditions the call can raise: a registered class with a circle whose
  float centre meets an integer radius of 311 digits, scenario B on an image 311 digits
  wide, and a class that is a list each do.
\<close>

theorem py_sample_to_boxes_raises:
  "py_sample_to_boxes round_double (make_sample (JStr ''stop_sign'')
     [circle_annotation (JFloat (11 / 2)) (JFloat (11 / 2)) (JInt (10 ^ 310))]) 640 480
   = Inl OverflowError
   \<and> py_sample_to_boxes round_double scenario_B (10 ^ 310) 640 = Inl OverflowError
   \<and> py_sample_to_boxes round_double [(''class'', JList []), (''annotations'', JList [])] 640 480
     = Inl TypeError"
  using overflow_radius_sample overflow_width unhashable_py by (intro conjI)

text \<open>
  Claim C10. Booleans pass the numeric checks: a circle whose \<^verbatim>\<open>radiusPx\<close> is
  \<^verbatim>\<open>True\<close> has radius 1 and yields a box of 2 by 2 pixels, and in a bbox \<^verbatim>\<open>False\<close> counts
  as 0 and \<^verbatim>\<open>True\<close> as 1.
\<close>

theorem bool_radius_accepted:
  "sample_to_boxes (make_sample (JStr ''billboard'')
      [circle_annotation (JInt 5) (JInt 5) (JBool True)]) 640 480
   = Inr [\<lparr>class_id = 2, x_center = 5 / 640, y_center = 5 / 480, width = 2 / 640, height = 2 / 480\<rparr>]
   \<and> annotation_raw (circle_annotation (JInt 5) (JInt 5) (JBool True)) 640 480 = Some (5, 5, 2, 2)
   \<and> annotation_raw (bbox_annotation (JBool False) (JBool True) (JInt 30) (JInt 40)) 640 480
       = Some (15, 21, 30, 40)
   \<and> as_number (JBool True) = Some 1 \<and> as_number (JBool False) = Some 0"
  by (simp add: eval_defs)

section \<open>Claims about format\_yolo\_labels\<close>

text \<open>
  Claim C8. \<^verbatim>\<open>format_yolo_labels\<close> answers one line for each box, in the order of the
  boxes: the class identifier as an integer, then the centre and the size, each with a
  point followed by exactly six digits, with single spaces between the fields and nothing
  after the last; no box gives no line. The digits of the class identifier read back as
  that integer, and the digits of a float read back within \<open>10\<^sup>-\<^sup>6 / 2\<close> of its absolute
  value.
\<close>

theorem format_yolo_labels_lines:
  "length (format_yolo_labels boxes) = length boxes
   \<and> (\<forall>i < length boxes.
        format_yolo_labels boxes ! i
          = str_int (class_id (boxes ! i)) @ '' '' @ format_6f (x_center (boxes ! i))
              @ '' '' @ format_6f (y_center (boxes ! i)) @ '' '' @ format_6f (width (boxes ! i))
              @ '' '' @ format_6f (height (boxes ! i)))
   \<and> format_yolo_labels [] = []
   \<and> (\<forall>r. \<exists>sgn ip fr. format_6f r = sgn @ ip @ ''.'' @ fr
          \<and> sgn = (if r < 0 then ''-'' else [])
          \<and> ip \<noteq> [] \<and> set ip \<subseteq> set ''0123456789''
          \<and> length fr = 6 \<and> set fr \<subseteq> set ''0123456789''
          \<and> \<bar>real (decimal_value ip) + real (decimal_value fr) / 1000000 - \<bar>r\<bar>\<bar> \<le> 1 / 2000000)
   \<and> (\<forall>n. \<exists>sgn ds. str_int n = sgn @ ds \<and> sgn = (if n < 0 then ''-'' else [])
          \<and> ds \<noteq> [] \<and> set ds \<subseteq> set ''0123456789'' \<and> int (decimal_value ds) = \<bar>n\<bar>)"
proof -
  have 1: "length (format_yolo_labels boxes) = length boxes"
    by (simp add: format_yolo_labels_map)
  have 2: "\<forall>i < length boxes.
        format_yolo_labels boxes ! i
          = str_int (class_id (boxes ! i)) @ '' '' @ format_6f (x_center (boxes ! i))
              @ '' '' @ format_6f (y_center (boxes ! i)) @ '' '' @ format_6f (width (boxes ! i))
              @ '' '' @ format_6f (height (boxes ! i))"
    by (simp add: format_yolo_labels_map format_line_def)
  have 3: "format_yolo_labels [] = []" by (simp add: format_yolo_labels_def)
  have 4: "\<forall>r. \<exists>sgn ip fr. format_6f r = sgn @ ip @ ''.'' @ fr
          \<and> sgn = (if r < 0 then ''-'' else [])
          \<and> ip \<noteq> [] \<and> set ip \<subseteq> set ''0123456789''
          \<and> length fr = 6 \<and> set fr \<subseteq> set ''0123456789''
          \<and> \<bar>real (decimal_value ip) + real (decimal_value fr) / 1000000 - \<bar>r\<bar>\<bar> \<le> 1 / 2000000"
    by (rule allI) (rule format_6f_value)
  have 5: "\<forall>n. \<exists>sgn ds. str_int n = sgn @ ds \<and> sgn = (if n < 0 then ''-'' else [])
          \<and> ds \<noteq> [] \<and> set ds \<subseteq> set ''0123456789'' \<and> int (decimal_value ds) = \<bar>n\<bar>"
    by (rule allI) (rule str_int_value)
  from 1 2 3 4 5 show ?thesis by (intro conjI)
qed

theorem format_yolo_labels_lines_witness:
  "length (format_yolo_labels
      [\<lparr>class_id = 12, x_center = 1, y_center = - (3 / 8), width = 1 / 128, height = 2469 / 2\<rparr>,
       \<lparr>class_id = 3, x_center = 3 / 128, y_center = 0, width = 5 / 128, height = - (1 / 1073741824)\<rparr>]) = 2
   \<and> format_yolo_labels
      [\<lparr>class_id = 12, x_center = 1, y_center = - (3 / 8), width = 1 / 128, height = 2469 / 2\<rparr>,
       \<lparr>class_id = 3, x_center = 3 / 128, y_center = 0, width = 5 / 128, height = - (1 / 1073741824)\<rparr>] ! 0
     = ''12 1.000000 -0.375000 0.007812 1234.500000''
   \<and> format_yolo_labels
      [\<lparr>class_id = 12, x_center = 1, y_center = - (3 / 8), width = 1 / 128, height = 2469 / 2\<rparr>,
       \<lparr>class_id = 3, x_center = 3 / 128, y_center = 0, width = 5 / 128, height = - (1 / 1073741824)\<rparr>] ! 1
     = ''3 0.023438 0.000000 0.039062 -0.000000''"
proof -
  let ?bs = "[\<lparr>class_id = 12, x_center = 1, y_center = - (3 / 8), width = 1 / 128, height = 2469 / 2\<rparr>,
       \<lparr>class_id = 3, x_center = 3 / 128, y_center = 0, width = 5 / 128, height = - (1 / 1073741824)\<rparr>]"
  have l: "length (format_yolo_labels ?bs) = length ?bs"
    and n: "\<forall>i < length ?bs. format_yolo_labels ?bs ! i
          = str_int (class_id (?bs ! i)) @ '' '' @ format_6f (x_center (?bs ! i))
              @ '' '' @ format_6f (y_center (?bs ! i)) @ '' '' @ format_6f (width (?bs ! i))
              @ '' '' @ format_6f (height (?bs ! i))"
    using format_yolo_labels_lines [of ?bs] by blast+
  have 0: "format_yolo_labels ?bs ! 0 = ''12 1.000000 -0.375000 0.007812 1234.500000''"
    using n [rule_format, of 0] by (simp add: str_int_examples format_6f_examples)
  have 1: "format_yolo_labels ?bs ! 1 = ''3 0.023438 0.000000 0.039062 -0.000000''"
    using n [rule_format, of 1] by (simp add: str_int_examples format_6f_examples)
  show ?thesis using l 0 1 by simp
qed

text \<open>
  Claim C9. Scenario B yields the single box with class identifier 1, centre
  \<open>(60 / 640, 35 / 640)\<close> and size \<open>(100 / 640, 50 / 640)\<close>, and its label line is
  \<^verbatim>\<open>1 0.093750 0.054688 0.156250 0.078125\<close>.
\<close>

theorem scenario_B_labels:
  "sample_to_boxes scenario_B 640 640
     = Inr [\<lparr>class_id = 1, x_center = 60 / 640, y_center = 35 / 640, width = 100 / 640, height = 50 / 640\<rparr>]
   \<and> [60 / 640, 35 / 640, 100 / 640, 50 / 640] = [0.09375, 0.0546875, 0.15625, 0.078125 :: real]
   \<and> format_yolo_labels
       [\<lparr>class_id = 1, x_center = 60 / 640, y_center = 35 / 640, width = 100 / 640, height = 50 / 640\<rparr>]
     = [''1 0.093750 0.054688 0.156250 0.078125'']"
proof -
  have 1: "sample_to_boxes scenario_B 640 640
     = Inr [\<lparr>class_id = 1, x_center = 60 / 640, y_center = 35 / 640, width = 100 / 640, height = 50 / 640\<rparr>]"
    by (simp add: scenario_B_def eval_defs)
  have 2: "[60 / 640, 35 / 640, 100 / 640, 50 / 640] = [0.09375, 0.0546875, 0.15625, 0.078125 :: real]"
    by simp
  have 3: "format_line \<lparr>class_id = 1, x_center = 60 / 640, y_center = 35 / 640, width = 100 / 640, height = 50 / 640\<rparr>
      = ''1 0.093750 0.054688 0.156250 0.078125''"
    unfolding format_line_def YoloBox.simps format_6f_scenario str_int_examples by simp
  have 4: "format_yolo_labels
       [\<lparr>class_id = 1, x_center = 60 / 640, y_center = 35 / 640, width = 100 / 640, height = 50 / 640\<rparr>]
     = [''1 0.093750 0.054688 0.156250 0.078125'']"
    unfolding format_yolo_labels_def foldl.simps 3 by simp
  show ?thesis using 1 2 4 by blast
qed

end
